theory Spec2Isabelle
  imports Main "HOL-Library.Word" "HOL-Library.Multiset"
begin

section \<open>Heap files (heapfile.C)\<close>

text \<open>
  A shallow embedding of \<^verbatim>\<open>heapfile.C\<close>: file creation, the \<^verbatim>\<open>HeapFile\<close> handle, the
  filtered sequential scan \<^verbatim>\<open>HeapFileScan\<close> and the insertion scan \<^verbatim>\<open>InsertFileScan\<close>.
  Every member function becomes a function from the state it reads to the status it
  returns and the state it leaves. The state has two parts: the object itself (a record
  of its member variables) and the environment the object's pointers refer to (the
  pages of the files and the pins of the buffer pool).
\<close>

subsection \<open>Status codes, record identifiers, records\<close>

text \<open>
  The status codes \<^verbatim>\<open>heapfile.C\<close> names, and the ones the model's buffer pool and file
  layer report (\<^verbatim>\<open>error.h\<close> is not part of the sources).
\<close>

datatype Status =
    OK | FILEEXISTS | FILEEOF | BADSCANPARM | INVALIDRECLEN
  | NORECORDS | ENDOFPAGE | NOSPACE | INVALIDSLOTNO
  | BADFILE | BADPAGENO | PAGENOTPINNED | UNIXERR

record RID =
  pageNo :: int
  slotNo :: int

text \<open>
  Modelled from the spec: \<^verbatim>\<open>NULLRID\<close> is declared outside \<^verbatim>\<open>heapfile.C\<close>; the spec calls it
  the reserved sentinel for "no current record". It is the pair of the "no page" value
  \<open>-1\<close>, which no record of a page carries (slot numbers start at 0).
\<close>

definition NULLRID :: RID where
  "NULLRID = \<lparr>pageNo = - 1, slotNo = - 1\<rparr>"

type_synonym byte = "8 word"

text \<open>
  A \<^verbatim>\<open>Record\<close> is a byte sequence with its length; \<^verbatim>\<open>rec.length\<close> is the length of the list.
\<close>

type_synonym Record = "byte list"

subsection \<open>The page layer\<close>

text \<open>
  Modelled from the spec: the slotted page (\<^verbatim>\<open>page.h\<close>, \<^verbatim>\<open>page.C\<close>) is not part of the
  sources. The spec gives its interface: a data page holds zero or more slotted records
  and a forward link, \<^verbatim>\<open>firstRecord() -> RID | NoRecords\<close>,
  \<^verbatim>\<open>nextRecord(RID) -> RID | EndOfPage\<close>, \<^verbatim>\<open>getRecord(RID) -> bytes | InvalidSlot\<close>,
  \<^verbatim>\<open>deleteRecord(RID) -> status\<close>, \<^verbatim>\<open>getNextPage()\<close>, \<^verbatim>\<open>setNextPage(pageNumber)\<close>,
  \<^verbatim>\<open>init(pageNumber)\<close>. A page is its own number, its forward link and its slots in slot
  order; a slot is empty (\<open>None\<close>, a deleted record) or holds a record. The RIDs a page
  hands out carry the page's own number and the index of the slot.
\<close>

record Page =
  ownPageNo :: int
  nextPage :: int
  slots :: "Record option list"

definition page_init :: "int \<Rightarrow> Page" where
  "page_init pn = \<lparr>ownPageNo = pn, nextPage = - 1, slots = []\<rparr>"

text \<open>\<open>first_live k ss\<close>: the index of the first occupied slot of \<open>ss\<close>, whose head is slot \<open>k\<close>.\<close>

fun first_live :: "nat \<Rightarrow> Record option list \<Rightarrow> nat option" where
  "first_live k [] = None"
| "first_live k (None # ss) = first_live (Suc k) ss"
| "first_live k (Some r # ss) = Some k"

definition page_firstRecord :: "Page \<Rightarrow> Status + RID" where
  "page_firstRecord pg =
     (case first_live 0 (slots pg) of
        None \<Rightarrow> Inl NORECORDS
      | Some k \<Rightarrow> Inr \<lparr>pageNo = ownPageNo pg, slotNo = int k\<rparr>)"

definition page_nextRecord :: "Page \<Rightarrow> RID \<Rightarrow> Status + RID" where
  "page_nextRecord pg curRid =
     (let k = nat (slotNo curRid + 1) in
      case first_live k (drop k (slots pg)) of
        None \<Rightarrow> Inl ENDOFPAGE
      | Some j \<Rightarrow> Inr \<lparr>pageNo = ownPageNo pg, slotNo = int j\<rparr>)"

definition page_getRecord :: "Page \<Rightarrow> RID \<Rightarrow> Status + Record" where
  "page_getRecord pg rid =
     (if 0 \<le> slotNo rid \<and> nat (slotNo rid) < length (slots pg)
      then (case slots pg ! nat (slotNo rid) of
              None \<Rightarrow> Inl INVALIDSLOTNO
            | Some r \<Rightarrow> Inr r)
      else Inl INVALIDSLOTNO)"

definition page_deleteRecord :: "Page \<Rightarrow> RID \<Rightarrow> Status \<times> Page" where
  "page_deleteRecord pg rid =
     (if 0 \<le> slotNo rid \<and> nat (slotNo rid) < length (slots pg)
         \<and> slots pg ! nat (slotNo rid) \<noteq> None
      then (OK, pg\<lparr>slots := (slots pg)[nat (slotNo rid) := None]\<rparr>)
      else (INVALIDSLOTNO, pg))"

text \<open>The RIDs of the live records of a page, in slot order.\<close>

fun live_slots :: "nat \<Rightarrow> Record option list \<Rightarrow> nat list" where
  "live_slots k [] = []"
| "live_slots k (None # ss) = live_slots (Suc k) ss"
| "live_slots k (Some r # ss) = k # live_slots (Suc k) ss"

definition page_rids :: "Page \<Rightarrow> RID list" where
  "page_rids pg = map (\<lambda>k. \<lparr>pageNo = ownPageNo pg, slotNo = int k\<rparr>) (live_slots 0 (slots pg))"

subsection \<open>The scan predicate\<close>

text \<open>
  The enumerations \<^verbatim>\<open>Datatype\<close> and \<^verbatim>\<open>Operator\<close> are declared outside \<^verbatim>\<open>heapfile.C\<close>;
  \<^verbatim>\<open>startScan\<close> checks its arguments against the values it supports, so a value of the
  enumeration's type can be another one: \<open>OtherDatatype\<close>, \<open>OtherOperator\<close>.
\<close>

datatype Datatype = STRING | INTEGER | FLOAT | OtherDatatype

datatype Operator = LT | LTE | EQ | GTE | GT | NE | OtherOperator

text \<open>
  \<^verbatim>\<open>matchRec\<close> keeps the difference of field and literal in a \<^verbatim>\<open>float\<close> and compares it
  with \<open>0.0\<close>. All that the comparisons read of it is how it stands to zero.
\<close>

datatype fsign = Negative | Zero | Positive | NotANumber

definition sign_of_int :: "int \<Rightarrow> fsign" where
  "sign_of_int d = (if d < 0 then Negative else if d = 0 then Zero else Positive)"

text \<open>
  \<^verbatim>\<open>sizeof(int)\<close> and \<^verbatim>\<open>sizeof(float)\<close> of the platform, and \<^verbatim>\<open>memcpy\<close> of \<open>sizeof(int)\<close> bytes
  into an \<^verbatim>\<open>int\<close> (the native layout taken little-endian).
\<close>

definition sizeof_int :: int where
  "sizeof_int = 4"

definition sizeof_float :: int where
  "sizeof_float = 4"

definition int_of_bytes :: "byte list \<Rightarrow> 32 word" where
  "int_of_bytes bs = foldr (\<lambda>b acc. ucast b + 256 * acc) bs 0"

text \<open>
  \<^verbatim>\<open>strncmp(s1, s2, n)\<close>: the difference of the first pair of bytes that differ among the
  first \<open>n\<close>, stopping after a NUL; the end of a list reads as the terminating NUL.
\<close>

fun strncmp :: "byte list \<Rightarrow> byte list \<Rightarrow> nat \<Rightarrow> int" where
  "strncmp s1 s2 0 = 0"
| "strncmp s1 s2 (Suc n) =
     (let c1 = (case s1 of [] \<Rightarrow> 0 | c # _ \<Rightarrow> c);
          c2 = (case s2 of [] \<Rightarrow> 0 | c # _ \<Rightarrow> c)
      in if c1 \<noteq> c2 then uint c1 - uint c2
         else if c1 = 0 then 0
         else strncmp (tl s1) (tl s2) n)"

subsection \<open>The objects\<close>

text \<open>
  \<^verbatim>\<open>class HeapFile\<close>. A pointer to a page of the buffer pool is the number of the page
  its frame holds (\<open>None\<close> is \<^verbatim>\<open>NULL\<close>); \<^verbatim>\<open>filePtr\<close> is the name of the open file.
\<close>

record HeapFile =
  filePtr :: string
  headerPage :: "int option"
  headerPageNo :: int
  hdrDirtyFlag :: bool
  curPage :: "int option"
  curPageNo :: int
  curDirtyFlag :: bool
  curRec :: RID

text \<open>
  \<^verbatim>\<open>class HeapFileScan : public HeapFile\<close>. \<^verbatim>\<open>filter\<close> is the literal the pointer refers to
  (\<open>None\<close> is \<^verbatim>\<open>NULL\<close>). The member names \<^verbatim>\<open>length\<close>, \<^verbatim>\<open>type\<close>, \<^verbatim>\<open>filter\<close> and \<^verbatim>\<open>op\<close> are
  suffixed.
\<close>

record HeapFileScan = HeapFile +
  offset :: int
  lengthS :: int
  typeS :: Datatype
  filterS :: "byte list option"
  opS :: Operator
  markedPageNo :: int
  markedRec :: RID

subsection \<open>startScan and matchRec\<close>

definition startScan ::
  "HeapFileScan \<Rightarrow> int \<Rightarrow> int \<Rightarrow> Datatype \<Rightarrow> byte list option \<Rightarrow> Operator
     \<Rightarrow> Status \<times> HeapFileScan" where
  "startScan h offset' length' type' filter' op' =
     (case filter' of
        None \<Rightarrow> (OK, h\<lparr>filterS := None\<rparr>)
      | Some flt \<Rightarrow>
          if (offset' < 0 \<or> length' < 1) \<or>
             (type' \<noteq> STRING \<and> type' \<noteq> INTEGER \<and> type' \<noteq> FLOAT) \<or>
             (type' = INTEGER \<and> length' \<noteq> sizeof_int
              \<or> type' = FLOAT \<and> length' \<noteq> sizeof_float) \<or>
             (op' \<noteq> LT \<and> op' \<noteq> LTE \<and> op' \<noteq> EQ \<and> op' \<noteq> GTE \<and> op' \<noteq> GT \<and> op' \<noteq> NE)
          then (BADSCANPARM, h)
          else (OK, h\<lparr>offset := offset', lengthS := length', typeS := type',
                      filterS := Some flt, opS := op'\<rparr>))"

text \<open>
  \<^verbatim>\<open>matchRec\<close>. The integers \<^verbatim>\<open>iattr\<close> and \<^verbatim>\<open>ifltr\<close> are 32-bit words and \<^verbatim>\<open>iattr - ifltr\<close> is
  the subtraction of the machine, read as a signed value; its conversion to \<^verbatim>\<open>float\<close>
  keeps its sign. The subtraction of two \<^verbatim>\<open>float\<close>s is the parameter \<open>fsub\<close>: how the
  difference of the two encoded values stands to zero. A \<^verbatim>\<open>type\<close> outside the \<^verbatim>\<open>switch\<close>
  leaves \<^verbatim>\<open>diff = 0\<close>, an \<^verbatim>\<open>op\<close> outside the second \<^verbatim>\<open>switch\<close> falls through to
  \<^verbatim>\<open>return false\<close>. The members \<^verbatim>\<open>offset\<close> and \<^verbatim>\<open>length\<close> are \<^verbatim>\<open>int\<close>s, and so is
  \<^verbatim>\<open>offset + length - 1\<close>: each of the two operations is that of the machine, which wraps
  around (\<open>c_int\<close>), and the result is compared as a signed value with \<^verbatim>\<open>rec.length\<close>. The
  \<^verbatim>\<open>memcpy\<close> of \<^verbatim>\<open>length\<close> bytes into \<^verbatim>\<open>iattr\<close> is meant for \<^verbatim>\<open>length = sizeof(int)\<close>, which
  \<^verbatim>\<open>startScan\<close> enforces.
\<close>

text \<open>
  \<open>c_int x\<close>: the value an \<^verbatim>\<open>int\<close> of 32 bits holds when the exact result of an operation
  on \<^verbatim>\<open>int\<close>s is \<open>x\<close> (two's complement).
\<close>

definition c_int :: "int \<Rightarrow> int" where
  "c_int x = sint (word_of_int x :: 32 word)"

definition apply_op :: "Operator \<Rightarrow> fsign \<Rightarrow> bool" where
  "apply_op oper diff =
     (case oper of
        LT \<Rightarrow> diff = Negative
      | LTE \<Rightarrow> diff = Negative \<or> diff = Zero
      | EQ \<Rightarrow> diff = Zero
      | GTE \<Rightarrow> diff = Positive \<or> diff = Zero
      | GT \<Rightarrow> diff = Positive
      | NE \<Rightarrow> diff \<noteq> Zero
      | OtherOperator \<Rightarrow> False)"

definition matchRec ::
  "(byte list \<Rightarrow> byte list \<Rightarrow> fsign) \<Rightarrow> HeapFileScan \<Rightarrow> Record \<Rightarrow> bool" where
  "matchRec fsub h rec =
     (case filterS h of
        None \<Rightarrow> True
      | Some flt \<Rightarrow>
          if c_int (c_int (offset h + lengthS h) - 1) \<ge> int (length rec) then False
          else
            let n = nat (lengthS h);
                attr = take n (drop (nat (offset h)) rec);
                diff = (case typeS h of
                          INTEGER \<Rightarrow>
                            sign_of_int (sint (int_of_bytes attr - int_of_bytes (take n flt)))
                        | FLOAT \<Rightarrow> fsub attr (take n flt)
                        | STRING \<Rightarrow> sign_of_int (strncmp attr flt n)
                        | OtherDatatype \<Rightarrow> Zero)
            in apply_op (opS h) diff)"

subsection \<open>The environment: files, pages and pins\<close>

text \<open>
  The header page of a heap file, \<^verbatim>\<open>FileHdrPage\<close>, as \<^verbatim>\<open>heapfile.C\<close> uses it.
\<close>

record FileHdrPage =
  fileName :: string
  firstPage :: int
  lastPage :: int
  pageCnt :: int
  recCnt :: int

text \<open>
  What a page of a file holds: nothing yet (a page just allocated), a header or a data
  page. The casts of the source between \<^verbatim>\<open>Page*\<close> and \<^verbatim>\<open>FileHdrPage*\<close> are the two views
  \<open>hdr_at\<close> and \<open>data_at\<close> below.
\<close>

datatype frame = RawPage | HdrPage FileHdrPage | DataPage Page

text \<open>
  Modelled from the spec: the file layer (\<^verbatim>\<open>db.h\<close>) and the buffer pool (\<^verbatim>\<open>buf.h\<close>) are
  external collaborators and not part of the sources. The spec gives their interface:
  \<^verbatim>\<open>createFile\<close>, \<^verbatim>\<open>destroyFile\<close>, \<^verbatim>\<open>openFile\<close>, \<^verbatim>\<open>closeFile\<close>, \<^verbatim>\<open>getFirstPageNumber\<close>,
  \<^verbatim>\<open>allocPage(file) -> (pageNumber, pinnedPage)\<close>, \<^verbatim>\<open>readPage(file, pageNumber) -> pinnedPage\<close>,
  \<^verbatim>\<open>unPinPage(file, pageNumber, isDirty) -> status\<close>, with pins counted by the pool.

  \<^item> \<open>files\<close>: the files that exist, each with the number of pages allocated in it so
    far; pages are numbered from 1 in the order of their allocation, and the first
    page of a file is page 1.
  \<^item> \<open>store\<close>: the content of each page. The pool is transparent: a pointer to a pinned
    page reads and writes the page itself, so the dirty flag passed to \<^verbatim>\<open>unPinPage\<close>
    has no effect here.
  \<^item> \<open>pinned\<close>: one entry per pin held on a page (a page pinned twice is listed twice).
  \<^item> \<open>faults\<close>: the I/O failures to come. Each call of the file layer or of the pool
    takes the head of the list; when it is \<open>True\<close> the call fails with \<open>UNIXERR\<close> and
    does nothing else. An empty list is a run without I/O failures.
\<close>

record env =
  files :: "string \<Rightarrow> int option"
  store :: "string \<times> int \<Rightarrow> frame option"
  pinned :: "(string \<times> int) list"
  faults :: "bool list"

definition io_call :: "env \<Rightarrow> bool \<times> env" where
  "io_call e = (case faults e of [] \<Rightarrow> (False, e) | b # bs \<Rightarrow> (b, e\<lparr>faults := bs\<rparr>))"

definition db_openFile :: "env \<Rightarrow> string \<Rightarrow> Status \<times> env" where
  "db_openFile e name =
     (case io_call e of (failed, e1) \<Rightarrow>
        if failed then (UNIXERR, e1)
        else if files e1 name = None then (BADFILE, e1)
        else (OK, e1))"



definition db_destroyFile :: "env \<Rightarrow> string \<Rightarrow> Status \<times> env" where
  "db_destroyFile e name =
     (case io_call e of (failed, e1) \<Rightarrow>
        if failed then (UNIXERR, e1)
        else if files e1 name = None then (BADFILE, e1)
        else (OK, e1\<lparr>files := (files e1)(name := None),
                      store := (\<lambda>(f, p). if f = name then None else store e1 (f, p))\<rparr>))"

definition file_getFirstPage :: "env \<Rightarrow> string \<Rightarrow> (Status + int) \<times> env" where
  "file_getFirstPage e name =
     (case io_call e of (failed, e1) \<Rightarrow>
        if failed then (Inl UNIXERR, e1)
        else (case files e1 name of
                None \<Rightarrow> (Inl BADFILE, e1)
              | Some n \<Rightarrow> if n < 1 then (Inl BADPAGENO, e1) else (Inr 1, e1)))"

text \<open>
  \<^verbatim>\<open>allocPage\<close> hands out the next page number of the file, with a pin on the new page;
  \<^verbatim>\<open>readPage\<close> pins an existing page; \<^verbatim>\<open>unPinPage\<close> releases one pin and fails on a page
  that holds none. A call that fails leaves the caller's out-parameters as they were.
\<close>

definition bm_allocPage :: "env \<Rightarrow> string \<Rightarrow> (Status + int) \<times> env" where
  "bm_allocPage e f =
     (case io_call e of (failed, e1) \<Rightarrow>
        if failed then (Inl UNIXERR, e1)
        else (case files e1 f of
                None \<Rightarrow> (Inl BADFILE, e1)
              | Some n \<Rightarrow>
                  (Inr (n + 1),
                   e1\<lparr>files := (files e1)(f \<mapsto> n + 1),
                      store := (store e1)((f, n + 1) \<mapsto> RawPage),
                      pinned := (f, n + 1) # pinned e1\<rparr>)))"

definition bm_readPage :: "env \<Rightarrow> string \<Rightarrow> int \<Rightarrow> Status \<times> env" where
  "bm_readPage e f pn =
     (case io_call e of (failed, e1) \<Rightarrow>
        if failed then (UNIXERR, e1)
        else if store e1 (f, pn) = None then (BADPAGENO, e1)
        else (OK, e1\<lparr>pinned := (f, pn) # pinned e1\<rparr>))"

definition bm_unPinPage :: "env \<Rightarrow> string \<Rightarrow> int \<Rightarrow> bool \<Rightarrow> Status \<times> env" where
  "bm_unPinPage e f pn dirty =
     (case io_call e of (failed, e1) \<Rightarrow>
        if failed then (UNIXERR, e1)
        else if (f, pn) \<notin> set (pinned e1) then (PAGENOTPINNED, e1)
        else (OK, e1\<lparr>pinned := remove1 (f, pn) (pinned e1)\<rparr>))"

text \<open>
  Dereferencing a page pointer. \<open>None\<close> stands for what the source leaves undefined: the
  pointer is \<^verbatim>\<open>NULL\<close>, or the page it refers to is not of the kind it is read as.
\<close>

definition hdr_at :: "env \<Rightarrow> string \<Rightarrow> int option \<Rightarrow> FileHdrPage option" where
  "hdr_at e f ptr =
     (case ptr of
        None \<Rightarrow> None
      | Some p \<Rightarrow> (case store e (f, p) of Some (HdrPage fh) \<Rightarrow> Some fh | _ \<Rightarrow> None))"

definition data_at :: "env \<Rightarrow> string \<Rightarrow> int option \<Rightarrow> Page option" where
  "data_at e f ptr =
     (case ptr of
        None \<Rightarrow> None
      | Some p \<Rightarrow> (case store e (f, p) of Some (DataPage pg) \<Rightarrow> Some pg | _ \<Rightarrow> None))"

definition put_hdr :: "env \<Rightarrow> string \<Rightarrow> int \<Rightarrow> FileHdrPage \<Rightarrow> env" where
  "put_hdr e f p fh = e\<lparr>store := (store e)((f, p) \<mapsto> HdrPage fh)\<rparr>"

definition put_data :: "env \<Rightarrow> string \<Rightarrow> int \<Rightarrow> Page \<Rightarrow> env" where
  "put_data e f p pg = e\<lparr>store := (store e)((f, p) \<mapsto> DataPage pg)\<rparr>"

text \<open>
  The result of a member function that dereferences a pointer: \<open>Undefined\<close> when it
  dereferences one that \<open>hdr_at\<close> or \<open>data_at\<close> cannot follow, else what it returns.
\<close>

datatype 'a outcome = Undefined | Returns 'a

subsection \<open>File creation\<close>


definition destroyHeapFile :: "env \<Rightarrow> string \<Rightarrow> Status \<times> env" where
  "destroyHeapFile e name = db_destroyFile e name"

subsection \<open>The HeapFile handle\<close>

text \<open>
  The constructor \<^verbatim>\<open>HeapFile::HeapFile\<close>. \<open>h0\<close> is the object before construction: the
  constructor assigns the member variables one by one, and the ones it has not reached
  when it returns early keep what \<open>h0\<close> held.
\<close>

definition HeapFile_ctor ::
  "env \<Rightarrow> 'a HeapFile_scheme \<Rightarrow> string \<Rightarrow> (Status \<times> env \<times> 'a HeapFile_scheme) outcome" where
  "HeapFile_ctor e h0 name =
     (case db_openFile e name of (status, e1) \<Rightarrow>
      if status = OK then
        let h1 = h0\<lparr>filePtr := name\<rparr> in
        (case file_getFirstPage e1 name of
           (Inl status, e2) \<Rightarrow> Returns (status, e2, h1)
         | (Inr hp, e2) \<Rightarrow>
            let h2 = h1\<lparr>headerPageNo := hp\<rparr> in
            (case bm_readPage e2 name hp of (status, e3) \<Rightarrow>
             if status \<noteq> OK then Returns (status, e3, h2) else
             let h3 = h2\<lparr>headerPage := Some hp, hdrDirtyFlag := False\<rparr> in
             (case hdr_at e3 name (headerPage h3) of
                None \<Rightarrow> Undefined
              | Some fh \<Rightarrow>
                 let h4 = h3\<lparr>curPageNo := firstPage fh\<rparr> in
                 (case bm_readPage e3 name (curPageNo h4) of (status, e4) \<Rightarrow>
                  if status \<noteq> OK then Returns (status, e4, h4) else
                  Returns (OK, e4, h4\<lparr>curPage := Some (curPageNo h4),
                                       curDirtyFlag := False, curRec := NULLRID\<rparr>)))))
      else Returns (status, e1, h0))"


definition getRecCnt :: "env \<Rightarrow> 'a HeapFile_scheme \<Rightarrow> int outcome" where
  "getRecCnt e h =
     (case hdr_at e (filePtr h) (headerPage h) of
        None \<Rightarrow> Undefined
      | Some fh \<Rightarrow> Returns (recCnt fh))"



subsection \<open>The sequential scan\<close>

definition HeapFileScan_ctor ::
  "env \<Rightarrow> HeapFileScan \<Rightarrow> string \<Rightarrow> (Status \<times> env \<times> HeapFileScan) outcome" where
  "HeapFileScan_ctor e h0 name =
     (case HeapFile_ctor e h0 name of
        Undefined \<Rightarrow> Undefined
      | Returns (status, e1, h1) \<Rightarrow> Returns (status, e1, h1\<lparr>filterS := None\<rparr>))"

definition endScan :: "env \<Rightarrow> HeapFileScan \<Rightarrow> Status \<times> env \<times> HeapFileScan" where
  "endScan e h =
     (if curPage h \<noteq> None then
        (case bm_unPinPage e (filePtr h) (curPageNo h) (curDirtyFlag h) of (status, e1) \<Rightarrow>
         (status, e1, h\<lparr>curPage := None, curPageNo := 0, curDirtyFlag := False\<rparr>))
      else (OK, e, h))"


definition markScan :: "HeapFileScan \<Rightarrow> Status \<times> HeapFileScan" where
  "markScan h = (OK, h\<lparr>markedPageNo := curPageNo h, markedRec := curRec h\<rparr>)"

definition resetScan :: "env \<Rightarrow> HeapFileScan \<Rightarrow> Status \<times> env \<times> HeapFileScan" where
  "resetScan e h =
     (if markedPageNo h \<noteq> curPageNo h then
        (case (if curPage h \<noteq> None
               then bm_unPinPage e (filePtr h) (curPageNo h) (curDirtyFlag h)
               else (OK, e)) of (status, e1) \<Rightarrow>
         if status \<noteq> OK then (status, e1, h) else
         let h1 = h\<lparr>curPageNo := markedPageNo h, curRec := markedRec h\<rparr> in
         (case bm_readPage e1 (filePtr h1) (curPageNo h1) of (status, e2) \<Rightarrow>
          if status \<noteq> OK then (status, e2, h1)
          else (OK, e2, h1\<lparr>curPage := Some (curPageNo h1), curDirtyFlag := False\<rparr>)))
      else (OK, e, h\<lparr>curRec := markedRec h\<rparr>))"

text \<open>
  \<^verbatim>\<open>scanNext\<close>, from the inside out. First the inner \<^verbatim>\<open>while (true)\<close> over the records of
  the current page: it ends with a match (\<open>Hit\<close>, the function returns \<open>OK\<close>), with a
  status the function returns (\<open>Fail\<close>), or with the \<^verbatim>\<open>break\<close> at the end of the page
  (\<open>Exhausted\<close>). \<open>Hit\<close> and \<open>Fail\<close> carry the value of \<^verbatim>\<open>curRec\<close>; after the \<^verbatim>\<open>break\<close> it is
  \<^verbatim>\<open>NULLRID\<close>. A status of \<^verbatim>\<open>nextRecord\<close> that is neither \<open>OK\<close> nor \<open>ENDOFPAGE\<close> leaves
  \<^verbatim>\<open>nextRid\<close> as it was and the loop goes round again.
\<close>

datatype page_scan = Hit RID | Fail Status RID | Exhausted

function scanPage :: "(Record \<Rightarrow> bool) \<Rightarrow> Page \<Rightarrow> RID \<Rightarrow> RID \<Rightarrow> page_scan" where
  "scanPage m pg cur nextRid =
     (case page_getRecord pg nextRid of
        Inl status \<Rightarrow> Fail status cur
      | Inr rec \<Rightarrow>
          if m rec then Hit nextRid
          else (case page_nextRecord pg nextRid of
                  Inl status \<Rightarrow>
                    if status = ENDOFPAGE then Exhausted
                    else scanPage m pg nextRid nextRid
                | Inr r \<Rightarrow> scanPage m pg nextRid r))"
  by pat_completeness auto
termination
proof (relation "measure (\<lambda>(m, pg, cur, nextRid). length (slots pg) - nat (slotNo nextRid))")
  have bounds: "first_live k ss = Some j \<Longrightarrow> k \<le> j \<and> j < k + length ss" for k ss j
  proof (induction k ss rule: first_live.induct)
    case (2 k ss)
    then show ?case by fastforce
  qed simp_all
  show "wf (measure (\<lambda>(m, pg, cur, nextRid). length (slots pg) - nat (slotNo nextRid)))"
    by simp
next
  fix m :: "Record \<Rightarrow> bool" and pg cur nextRid x1
  assume "page_nextRecord pg nextRid = Inl x1" "x1 \<noteq> ENDOFPAGE"
  then have False
    by (auto simp: page_nextRecord_def Let_def split: option.splits)
  then show "((m, pg, nextRid, nextRid), (m, pg, cur, nextRid))
             \<in> measure (\<lambda>(m, pg, cur, nextRid). length (slots pg) - nat (slotNo nextRid))" ..
next
  have bounds: "first_live k ss = Some j \<Longrightarrow> k \<le> j \<and> j < k + length ss" for k ss j
  proof (induction k ss rule: first_live.induct)
    case (2 k ss)
    then show ?case by fastforce
  qed simp_all
  fix m :: "Record \<Rightarrow> bool" and pg cur nextRid x2 r
  assume get: "page_getRecord pg nextRid = Inr x2" and nxt: "page_nextRecord pg nextRid = Inr r"
  from get have "0 \<le> slotNo nextRid \<and> nat (slotNo nextRid) < length (slots pg)"
    by (auto simp: page_getRecord_def split: if_splits)
  moreover from nxt have "slotNo nextRid + 1 \<le> slotNo r"
    by (auto simp: page_nextRecord_def Let_def split: option.splits dest!: bounds)
  ultimately show "((m, pg, nextRid, r), (m, pg, cur, nextRid))
             \<in> measure (\<lambda>(m, pg, cur, nextRid). length (slots pg) - nat (slotNo nextRid))"
    by auto
qed

text \<open>
  Lines 367 to 412: the records of the page just read, from the cursor \<open>cur\<close> on.
\<close>

definition scanCurPage :: "(Record \<Rightarrow> bool) \<Rightarrow> Page \<Rightarrow> RID \<Rightarrow> page_scan" where
  "scanCurPage m pg cur =
     (if pageNo cur = pageNo NULLRID \<and> slotNo cur = slotNo NULLRID then
        (case page_firstRecord pg of
           Inl status \<Rightarrow> if status \<noteq> NORECORDS then Fail status cur else Exhausted
         | Inr nextRid \<Rightarrow> scanPage m pg cur nextRid)
      else
        (case page_nextRecord pg cur of
           Inl status \<Rightarrow> if status \<noteq> ENDOFPAGE then Fail status cur else Exhausted
         | Inr nextRid \<Rightarrow> scanPage m pg cur nextRid))"

text \<open>
  The outer \<^verbatim>\<open>while (true)\<close> over the pages, with the local \<^verbatim>\<open>nextPageNo\<close> as its
  argument. It runs for as long as the page chain goes on: \<open>None\<close> is a run that never
  returns. \<^verbatim>\<open>outRid\<close> is the caller's RID, returned as the function leaves it.
\<close>

partial_function (option) scanLoop ::
  "(byte list \<Rightarrow> byte list \<Rightarrow> fsign) \<Rightarrow> env \<Rightarrow> HeapFileScan \<Rightarrow> RID \<Rightarrow> int
     \<Rightarrow> (Status \<times> RID \<times> env \<times> HeapFileScan) outcome option" where
  "scanLoop fsub e h outRid nextPageNo =
     (if nextPageNo = - 1 then Some (Returns (FILEEOF, outRid, e, h)) else
      (case (if curPage h \<noteq> None
             then bm_unPinPage e (filePtr h) (curPageNo h) (curDirtyFlag h)
             else (OK, e)) of (status, e1) \<Rightarrow>
       if status \<noteq> OK then Some (Returns (status, outRid, e1, h)) else
       (case bm_readPage e1 (filePtr h) nextPageNo of (status, e2) \<Rightarrow>
        if status \<noteq> OK then Some (Returns (status, outRid, e2, h)) else
        let h1 = h\<lparr>curPage := Some nextPageNo, curPageNo := nextPageNo, curDirtyFlag := False\<rparr> in
        (case data_at e2 (filePtr h1) (curPage h1) of
           None \<Rightarrow> Some Undefined
         | Some pg \<Rightarrow>
            (case scanCurPage (matchRec fsub h1) pg (curRec h1) of
               Hit rid \<Rightarrow> Some (Returns (OK, rid, e2, h1\<lparr>curRec := rid\<rparr>))
             | Fail status cur \<Rightarrow> Some (Returns (status, outRid, e2, h1\<lparr>curRec := cur\<rparr>))
             | Exhausted \<Rightarrow> scanLoop fsub e2 (h1\<lparr>curRec := NULLRID\<rparr>) outRid (nextPage pg))))))"

definition scanNext ::
  "(byte list \<Rightarrow> byte list \<Rightarrow> fsign) \<Rightarrow> env \<Rightarrow> HeapFileScan \<Rightarrow> RID
     \<Rightarrow> (Status \<times> RID \<times> env \<times> HeapFileScan) outcome option" where
  "scanNext fsub e h outRid = scanLoop fsub e h outRid (curPageNo h)"

text \<open>
  \<^verbatim>\<open>HeapFileScan::getRecord\<close>, \<^verbatim>\<open>deleteRecord\<close> and \<^verbatim>\<open>markDirty\<close>.
\<close>

definition HeapFileScan_getRecord ::
  "env \<Rightarrow> HeapFileScan \<Rightarrow> Record \<Rightarrow> (Status \<times> Record) outcome" where
  "HeapFileScan_getRecord e h rec =
     (case data_at e (filePtr h) (curPage h) of
        None \<Rightarrow> Undefined
      | Some pg \<Rightarrow>
         (case page_getRecord pg (curRec h) of
            Inl status \<Rightarrow> Returns (status, rec)
          | Inr r \<Rightarrow> Returns (OK, r)))"

definition deleteRecord ::
  "env \<Rightarrow> HeapFileScan \<Rightarrow> (Status \<times> env \<times> HeapFileScan) outcome" where
  "deleteRecord e h =
     (case curPage h of
        None \<Rightarrow> Undefined
      | Some p \<Rightarrow>
     (case data_at e (filePtr h) (Some p) of
        None \<Rightarrow> Undefined
      | Some pg \<Rightarrow>
     (case page_deleteRecord pg (curRec h) of (status, pg') \<Rightarrow>
      let e1 = put_data e (filePtr h) p pg';
          h1 = h\<lparr>curDirtyFlag := True\<rparr>
      in
      (case headerPage h1 of
         None \<Rightarrow> Undefined
       | Some hp \<Rightarrow>
      (case hdr_at e1 (filePtr h1) (Some hp) of
         None \<Rightarrow> Undefined
       | Some fh \<Rightarrow>
          let e2 = put_hdr e1 (filePtr h1) hp (fh\<lparr>recCnt := recCnt fh - 1\<rparr>)
          in Returns (status, e2, h1\<lparr>hdrDirtyFlag := True\<rparr>))))))"

definition markDirty :: "HeapFileScan \<Rightarrow> Status \<times> HeapFileScan" where
  "markDirty h = (OK, h\<lparr>curDirtyFlag := True\<rparr>)"

subsection \<open>The insertion scan\<close>

text \<open>
  \<^verbatim>\<open>class InsertFileScan : public HeapFile\<close> adds no member variable.

  What \<^verbatim>\<open>insertRecord\<close> takes from the page layer is a parameter, since \<^verbatim>\<open>page.h\<close> is not
  part of the sources: the constants \<^verbatim>\<open>PAGESIZE\<close> and \<^verbatim>\<open>DPFIXED\<close>, and the page's own
  \<^verbatim>\<open>insertRecord\<close>, which returns the RID of the record or the status of its failure, and
  the page as it leaves it.
\<close>

type_synonym InsertFileScan = HeapFile

record page_impl =
  PAGESIZE :: nat
  DPFIXED :: nat
  page_insertRecord :: "Page \<Rightarrow> Record \<Rightarrow> (Status + RID) \<times> Page"

definition InsertFileScan_ctor ::
  "env \<Rightarrow> InsertFileScan \<Rightarrow> string \<Rightarrow> (Status \<times> env \<times> InsertFileScan) outcome" where
  "InsertFileScan_ctor e h0 name = HeapFile_ctor e h0 name"


text \<open>
  The \<^verbatim>\<open>while (true)\<close> of \<^verbatim>\<open>insertRecord\<close> (lines 566 to 613). \<open>None\<close> is a run that never
  returns.
\<close>

partial_function (option) insertLoop ::
  "page_impl \<Rightarrow> env \<Rightarrow> InsertFileScan \<Rightarrow> Record \<Rightarrow> RID
     \<Rightarrow> (Status \<times> RID \<times> env \<times> InsertFileScan) outcome option" where
  "insertLoop L e h rec outRid =
     (case curPage h of
        None \<Rightarrow> Some Undefined
      | Some p \<Rightarrow>
     (case data_at e (filePtr h) (Some p) of
        None \<Rightarrow> Some Undefined
      | Some pg \<Rightarrow>
     (case page_insertRecord L pg rec of
        (Inr rid, pg') \<Rightarrow>
          let e1 = put_data e (filePtr h) p pg';
              h1 = h\<lparr>curRec := rid, curDirtyFlag := True\<rparr>
          in
          (case headerPage h1 of
             None \<Rightarrow> Some Undefined
           | Some hp \<Rightarrow>
          (case hdr_at e1 (filePtr h1) (Some hp) of
             None \<Rightarrow> Some Undefined
           | Some fh \<Rightarrow>
              Some (Returns (OK, rid,
                      put_hdr e1 (filePtr h1) hp (fh\<lparr>recCnt := recCnt fh + 1\<rparr>),
                      h1\<lparr>hdrDirtyFlag := True\<rparr>))))
      | (Inl status, pg') \<Rightarrow>
          let e1 = put_data e (filePtr h) p pg' in
          if status \<noteq> NOSPACE then Some (Returns (status, outRid, e1, h)) else
          (case bm_allocPage e1 (filePtr h) of
             (Inl status, e2) \<Rightarrow> Some (Returns (status, outRid, e2, h))
           | (Inr newPageNo, e2) \<Rightarrow>
              let e3 = put_data e2 (filePtr h) newPageNo (page_init newPageNo) in
              (case data_at e3 (filePtr h) (Some p) of
                 None \<Rightarrow> Some Undefined
               | Some cp \<Rightarrow>
                  let e4 = put_data e3 (filePtr h) p (cp\<lparr>nextPage := newPageNo\<rparr>) in
                  (case bm_unPinPage e4 (filePtr h) (curPageNo h) (curDirtyFlag h) of
                     (status, e5) \<Rightarrow>
                   if status \<noteq> OK then Some (Returns (status, outRid, e5, h)) else
                   (case headerPage h of
                      None \<Rightarrow> Some Undefined
                    | Some hp \<Rightarrow>
                   (case hdr_at e5 (filePtr h) (Some hp) of
                      None \<Rightarrow> Some Undefined
                    | Some fh \<Rightarrow>
                       insertLoop L
                         (put_hdr e5 (filePtr h) hp (fh\<lparr>lastPage := newPageNo\<rparr>))
                         (h\<lparr>hdrDirtyFlag := True, curPage := Some newPageNo,
                            curPageNo := newPageNo, curDirtyFlag := True\<rparr>)
                         rec outRid))))))))"

text \<open>
  \<^verbatim>\<open>InsertFileScan::insertRecord\<close>. \<^verbatim>\<open>(unsigned int) rec.length\<close> is the length of the list,
  and \<^verbatim>\<open>PAGESIZE - DPFIXED\<close> is a subtraction of naturals (\<^verbatim>\<open>DPFIXED\<close> is the part of the
  page that its fixed fields take).
\<close>

definition insertRecord ::
  "page_impl \<Rightarrow> env \<Rightarrow> InsertFileScan \<Rightarrow> Record \<Rightarrow> RID
     \<Rightarrow> (Status \<times> RID \<times> env \<times> InsertFileScan) outcome option" where
  "insertRecord L e h rec outRid =
     (if length rec > PAGESIZE L - DPFIXED L then Some (Returns (INVALIDRECLEN, outRid, e, h))
      else if curPage h = None then
        (case hdr_at e (filePtr h) (headerPage h) of
           None \<Rightarrow> Some Undefined
         | Some fh \<Rightarrow>
            if lastPage fh \<noteq> - 1 then
              (case bm_readPage e (filePtr h) (lastPage fh) of (status, e1) \<Rightarrow>
               if status \<noteq> OK then Some (Returns (status, outRid, e1, h))
               else insertLoop L e1
                      (h\<lparr>curPage := Some (lastPage fh), curPageNo := lastPage fh,
                         curDirtyFlag := False\<rparr>) rec outRid)
            else insertLoop L e h rec outRid)
      else insertLoop L e h rec outRid)"

subsection \<open>One round of the scan loop\<close>

text \<open>
  The body of the outer loop of \<^verbatim>\<open>scanNext\<close> on its own: one round either ends the call
  (\<open>Done\<close>) or goes round again with a new state (\<open>Again\<close>). \<open>scanLoop_unfold\<close> below shows
  that \<open>scanLoop\<close> is the iteration of \<open>scanStep\<close>.
\<close>

datatype ('r, 'c) iter = Done 'r | Again 'c

definition scanStep ::
  "(byte list \<Rightarrow> byte list \<Rightarrow> fsign) \<Rightarrow> env \<Rightarrow> HeapFileScan \<Rightarrow> RID \<Rightarrow> int
     \<Rightarrow> ((Status \<times> RID \<times> env \<times> HeapFileScan) outcome, env \<times> HeapFileScan \<times> int) iter" where
  "scanStep fsub e h outRid nextPageNo =
     (if nextPageNo = - 1 then Done (Returns (FILEEOF, outRid, e, h)) else
      (case (if curPage h \<noteq> None
             then bm_unPinPage e (filePtr h) (curPageNo h) (curDirtyFlag h)
             else (OK, e)) of (status, e1) \<Rightarrow>
       if status \<noteq> OK then Done (Returns (status, outRid, e1, h)) else
       (case bm_readPage e1 (filePtr h) nextPageNo of (status, e2) \<Rightarrow>
        if status \<noteq> OK then Done (Returns (status, outRid, e2, h)) else
        let h1 = h\<lparr>curPage := Some nextPageNo, curPageNo := nextPageNo, curDirtyFlag := False\<rparr> in
        (case data_at e2 (filePtr h1) (curPage h1) of
           None \<Rightarrow> Done Undefined
         | Some pg \<Rightarrow>
            (case scanCurPage (matchRec fsub h1) pg (curRec h1) of
               Hit rid \<Rightarrow> Done (Returns (OK, rid, e2, h1\<lparr>curRec := rid\<rparr>))
             | Fail status cur \<Rightarrow> Done (Returns (status, outRid, e2, h1\<lparr>curRec := cur\<rparr>))
             | Exhausted \<Rightarrow> Again (e2, h1\<lparr>curRec := NULLRID\<rparr>, nextPage pg))))))"






subsection \<open>The page chain and the records of a file\<close>

text \<open>
  \<open>chain e f n pgs\<close>: from page number \<open>n\<close> on, the pages of file \<open>f\<close> linked by their
  forward pointers are \<open>pgs\<close>, each under its own number, and the last one carries the
  "no next page" value \<open>-1\<close>.
\<close>

fun chain :: "env \<Rightarrow> string \<Rightarrow> int \<Rightarrow> Page list \<Rightarrow> bool" where
  "chain e f n [] = (n = - 1)"
| "chain e f n (pg # pgs) =
     (n \<noteq> - 1 \<and> data_at e f (Some n) = Some pg \<and> ownPageNo pg = n \<and> chain e f (nextPage pg) pgs)"

text \<open>
  The RIDs of the live records of the pages \<open>pgs\<close>: page after page, and within a page in
  slot order. \<open>rids_after pg c\<close> are those of page \<open>pg\<close> that follow the cursor \<open>c\<close>.
\<close>

definition file_rids :: "Page list \<Rightarrow> RID list" where
  "file_rids pgs = concat (map page_rids pgs)"

definition rids_after :: "Page \<Rightarrow> RID \<Rightarrow> RID list" where
  "rids_after pg c =
     (let k = nat (slotNo c + 1) in
      map (\<lambda>j. \<lparr>pageNo = ownPageNo pg, slotNo = int j\<rparr>) (live_slots k (drop k (slots pg))))"

text \<open>
  \<open>scanCalls k\<close>: the status and the \<^verbatim>\<open>outRid\<close> of each of \<open>k\<close> calls of \<^verbatim>\<open>scanNext\<close> in a row,
  and the state after the last one.
\<close>

fun scanCalls ::
  "nat \<Rightarrow> (byte list \<Rightarrow> byte list \<Rightarrow> fsign) \<Rightarrow> env \<Rightarrow> HeapFileScan \<Rightarrow> RID
     \<Rightarrow> ((Status \<times> RID) list \<times> env \<times> HeapFileScan) outcome option" where
  "scanCalls 0 fsub e h outRid = Some (Returns ([], e, h))"
| "scanCalls (Suc k) fsub e h outRid =
     (case scanNext fsub e h outRid of
        None \<Rightarrow> None
      | Some Undefined \<Rightarrow> Some Undefined
      | Some (Returns (status, outRid', e', h')) \<Rightarrow>
          (case scanCalls k fsub e' h' outRid' of
             None \<Rightarrow> None
           | Some Undefined \<Rightarrow> Some Undefined
           | Some (Returns (rs, e'', h'')) \<Rightarrow> Some (Returns ((status, outRid') # rs, e'', h''))))"

text \<open>
  For a scan on the first page of \<open>pgs\<close> with cursor \<open>c\<close>: the records still to visit
  (\<open>todo\<close>), and what the scan and its environment satisfy between two calls of an
  unfiltered scan without I/O failures (\<open>positioned\<close>).
\<close>

fun todo :: "Page list \<Rightarrow> RID \<Rightarrow> RID list" where
  "todo [] c = []"
| "todo (pg # rest) c = rids_after pg c @ file_rids rest"

definition positioned :: "env \<Rightarrow> HeapFileScan \<Rightarrow> Page list \<Rightarrow> bool" where
  "positioned e h pgs =
     (faults e = [] \<and> filterS h = None \<and> curPage h = Some (curPageNo h)
      \<and> (filePtr h, curPageNo h) \<in> set (pinned e)
      \<and> chain e (filePtr h) (curPageNo h) pgs)"

text \<open>The number of pages allocated in a file so far.\<close>

definition allocated :: "env \<Rightarrow> string \<Rightarrow> int" where
  "allocated e f = (case files e f of None \<Rightarrow> 0 | Some n \<Rightarrow> n)"

text \<open>
  \<open>fails k e\<close>: of the calls of the file layer and of the pool to come, counted from 0,
  call \<open>k\<close> fails.
\<close>

definition fails :: "nat \<Rightarrow> env \<Rightarrow> bool" where
  "fails k e = (k < length (faults e) \<and> faults e ! k)"


declare scanLoop.simps [code]

declare insertLoop.simps [code]

subsection \<open>Example states\<close>

text \<open>
  A heap file \<open>''f''\<close> of two data pages: the header on page 1, page 2 with live records
  in slots 0 and 2 and a deleted record in slot 1, page 3 with a deleted record in slot
  0 and a live one in slot 1. \<open>ex_env\<close> is the environment of a scan just opened on the
  file (pins on the header and on the first data page), \<open>ex_scan\<close> is the scan.
\<close>

definition ex_store :: "string \<times> int \<Rightarrow> frame option" where
  "ex_store = (\<lambda>_. None)
     ((''f'', 1) \<mapsto> HdrPage \<lparr>fileName = ''f'', firstPage = 2, lastPage = 3,
                            pageCnt = 2, recCnt = 3\<rparr>,
      (''f'', 2) \<mapsto> DataPage \<lparr>ownPageNo = 2, nextPage = 3,
                             slots = [Some [1, 0, 0, 0], None, Some [2, 0, 0, 0]]\<rparr>,
      (''f'', 3) \<mapsto> DataPage \<lparr>ownPageNo = 3, nextPage = - 1,
                             slots = [None, Some [3, 0, 0, 0]]\<rparr>)"

definition ex_env :: env where
  "ex_env = \<lparr>files = [''f'' \<mapsto> 3], store = ex_store,
             pinned = [(''f'', 1), (''f'', 2)], faults = []\<rparr>"

definition ex_scan :: HeapFileScan where
  "ex_scan = \<lparr>filePtr = ''f'', headerPage = Some 1, headerPageNo = 1, hdrDirtyFlag = False,
     curPage = Some 2, curPageNo = 2, curDirtyFlag = False, curRec = NULLRID,
     offset = 0, lengthS = 4, typeS = INTEGER, filterS = None, opS = LT,
     markedPageNo = 0, markedRec = NULLRID\<rparr>"

text \<open>
  An insertion scan on the same file, and a page layer for it: a page of 24 bytes of
  which 20 are fixed, so that a page takes records of 4 bytes in all.
\<close>

definition ex_insert :: InsertFileScan where
  "ex_insert = \<lparr>filePtr = ''f'', headerPage = Some 1, headerPageNo = 1, hdrDirtyFlag = False,
     curPage = Some 2, curPageNo = 2, curDirtyFlag = False, curRec = NULLRID\<rparr>"

definition ex_used :: "Page \<Rightarrow> nat" where
  "ex_used pg = sum_list (map (\<lambda>s. case s of None \<Rightarrow> 0 | Some r \<Rightarrow> length r) (slots pg))"

definition ex_page_insert :: "Page \<Rightarrow> Record \<Rightarrow> (Status + RID) \<times> Page" where
  "ex_page_insert pg rec =
     (if ex_used pg + length rec \<le> 4
      then (Inr \<lparr>pageNo = ownPageNo pg, slotNo = int (length (slots pg))\<rparr>,
            pg\<lparr>slots := slots pg @ [Some rec]\<rparr>)
      else (Inl NOSPACE, pg))"

definition ex_impl :: page_impl where
  "ex_impl = \<lparr>PAGESIZE = 24, DPFIXED = 20, page_insertRecord = ex_page_insert\<rparr>"

text \<open>
  The same file with no page pinned, and the scan with an integer predicate: the field
  of four bytes at offset 0 is less than 1.
\<close>

definition ex_closed :: env where
  "ex_closed = ex_env\<lparr>pinned := []\<rparr>"

definition ex_filtered :: HeapFileScan where
  "ex_filtered = ex_scan\<lparr>filterS := Some [1, 0, 0, 0]\<rparr>"

text \<open>
  The scan with a string predicate whose length is \<^verbatim>\<open>INT_MAX\<close>: the string at offset 2
  equals the literal of one byte, 3.
\<close>

definition ex_long :: HeapFileScan where
  "ex_long = ex_scan\<lparr>offset := 2, lengthS := 2147483647, typeS := STRING,
                      filterS := Some [3, 0], opS := EQ\<rparr>"



text \<open>The data pages of the example file, in the order of the chain.\<close>

definition ex_pages :: "Page list" where
  "ex_pages = [\<lparr>ownPageNo = 2, nextPage = 3, slots = [Some [1, 0, 0, 0], None, Some [2, 0, 0, 0]]\<rparr>,
               \<lparr>ownPageNo = 3, nextPage = - 1, slots = [None, Some [3, 0, 0, 0]]\<rparr>]"

section \<open>Properties\<close>

subsection \<open>startScan\<close>

text \<open>
  Claim C4. \<^verbatim>\<open>startScan\<close> with an absent filter value succeeds unconditionally and installs
  no predicate, so that every record matches. With a filter value present it returns
  \<open>BADSCANPARM\<close> if and only if the offset is negative, or the length is below 1, or the
  type is not one of integer, float and string, or the type is numeric and the length is
  not that type's width, or the operator is not one of the six comparisons; on that
  failure the scan object is left as it was, and otherwise the five predicate fields are
  installed.
\<close>

theorem startScan_validation:
  "startScan h off len ty None oper = (OK, h\<lparr>filterS := None\<rparr>)
   \<and> matchRec fsub (snd (startScan h off len ty None oper)) rec
   \<and> ((fst (startScan h off len ty (Some flt) oper) = BADSCANPARM) =
        (off < 0 \<or> len < 1 \<or> ty \<notin> {INTEGER, FLOAT, STRING}
         \<or> (ty = INTEGER \<and> len \<noteq> sizeof_int) \<or> (ty = FLOAT \<and> len \<noteq> sizeof_float)
         \<or> oper \<notin> {LT, LTE, EQ, GTE, GT, NE}))
   \<and> startScan h off len ty (Some flt) oper =
        (if off < 0 \<or> len < 1 \<or> ty \<notin> {INTEGER, FLOAT, STRING}
            \<or> (ty = INTEGER \<and> len \<noteq> sizeof_int) \<or> (ty = FLOAT \<and> len \<noteq> sizeof_float)
            \<or> oper \<notin> {LT, LTE, EQ, GTE, GT, NE}
         then (BADSCANPARM, h)
         else (OK, h\<lparr>offset := off, lengthS := len, typeS := ty,
                     filterS := Some flt, opS := oper\<rparr>))"
  by (auto simp: startScan_def matchRec_def)

theorem startScan_validation_witness:
  "fst (startScan ex_scan 0 3 INTEGER (Some [7, 0, 0, 0]) EQ) = BADSCANPARM
   \<and> startScan ex_scan 0 3 INTEGER (Some [7, 0, 0, 0]) EQ = (BADSCANPARM, ex_scan)
   \<and> fst (startScan ex_scan 0 4 INTEGER (Some [7, 0, 0, 0]) EQ) = OK"
  using startScan_validation [where h = ex_scan and off = 0 and len = 3 and ty = INTEGER
          and oper = EQ and flt = "[7, 0, 0, 0]"]
        startScan_validation [where h = ex_scan and off = 0 and len = 4 and ty = INTEGER
          and oper = EQ and flt = "[7, 0, 0, 0]"]
  by (simp add: sizeof_int_def)

subsection \<open>matchRec\<close>

lemma strncmp_pos:
  "0 < n \<Longrightarrow> strncmp s1 s2 n =
     (let c1 = (case s1 of [] \<Rightarrow> 0 | c # _ \<Rightarrow> c);
          c2 = (case s2 of [] \<Rightarrow> 0 | c # _ \<Rightarrow> c)
      in if c1 \<noteq> c2 then uint c1 - uint c2
         else if c1 = 0 then 0
         else strncmp (tl s1) (tl s2) (n - 1))"
proof (cases n)
  case (Suc k)
  then show ?thesis by (simp add: Let_def)
qed simp

text \<open>
  Claim C6, at an input that it fails on. \<^verbatim>\<open>startScan\<close> accepts the predicate "the string
  at offset 2, compared over at most 2147483647 bytes, equals the literal". For it
  \<open>offset + length - 1\<close> is 2147483648, far beyond the four bytes of the record, but the sum
  of the two \<^verbatim>\<open>int\<close>s wraps around to a negative value, the test of line 460 does not
  fire, and \<^verbatim>\<open>matchRec\<close> goes on to compare the field with the literal: both strings end
  within their bytes, they are equal, and the record matches.
\<close>

theorem matchRec_short_record_overflow:
  "startScan ex_scan 2 2147483647 STRING (Some [3, 0]) EQ = (OK, ex_long)
   \<and> offset ex_long + lengthS ex_long - 1 = 2147483648
   \<and> int (length [1 :: byte, 2, 3, 0]) = 4
   \<and> c_int (c_int (offset ex_long + lengthS ex_long) - 1) = - 2147483648
   \<and> matchRec (\<lambda>a b. Zero) ex_long [1, 2, 3, 0] = True"
proof -
  have s: "startScan ex_scan 2 2147483647 STRING (Some [3, 0]) EQ = (OK, ex_long)"
    by (simp add: startScan_def ex_long_def)
  have c: "c_int (c_int (offset ex_long + lengthS ex_long) - 1) = - 2147483648"
    by (simp add: ex_long_def c_int_def)
  have m: "matchRec (\<lambda>a b. Zero) ex_long [1, 2, 3, 0] = True"
    unfolding matchRec_def c
    by (simp add: ex_long_def strncmp_pos sign_of_int_def apply_op_def Let_def)
  show ?thesis using s c m by (simp add: ex_long_def)
qed

text \<open>
  When the sum does not overflow, the test of line 460 is the comparison of the claim.
\<close>

lemma c_int_in_range: "- (2 ^ 31) \<le> x \<Longrightarrow> x < 2 ^ 31 \<Longrightarrow> c_int x = x"
  unfolding c_int_def
  by (simp add: sint_word_ariths signed_take_bit_int_eq_self word_of_int_eq_iff sint_sbintrunc')

lemma matchRec_short_record_in_range:
  assumes "filterS h = Some flt" and "0 \<le> offset h" and "1 \<le> lengthS h"
    and "offset h + lengthS h < 2 ^ 31" and "offset h + lengthS h - 1 > int (length rec)"
  shows "matchRec fsub h rec = False"
proof -
  have "c_int (offset h + lengthS h) = offset h + lengthS h"
    using assms(2-4) by (intro c_int_in_range) simp_all
  moreover have "c_int (offset h + lengthS h - 1) = offset h + lengthS h - 1"
    using assms(2-4) by (intro c_int_in_range) simp_all
  ultimately show ?thesis using assms(1,5) by (simp add: matchRec_def)
qed

subsection \<open>insertRecord\<close>

text \<open>
  Claim C5. For every record whose length exceeds \<open>PAGESIZE - DPFIXED\<close>, \<^verbatim>\<open>insertRecord\<close>
  returns \<open>INVALIDRECLEN\<close> before any I/O: the environment (pages, pins, allocated
  pages, pending I/O) and the scan object are returned as they were.
\<close>

theorem insertRecord_too_long:
  "length rec > PAGESIZE P - DPFIXED P \<Longrightarrow>
     insertRecord P e h rec outRid = Some (Returns (INVALIDRECLEN, outRid, e, h))"
  by (simp add: insertRecord_def)

theorem insertRecord_too_long_witness:
  "length [1 :: byte, 2, 3, 4, 5] > PAGESIZE ex_impl - DPFIXED ex_impl
   \<and> insertRecord ex_impl ex_env ex_insert [1, 2, 3, 4, 5] NULLRID
       = Some (Returns (INVALIDRECLEN, NULLRID, ex_env, ex_insert))"
proof -
  have l: "length [1 :: byte, 2, 3, 4, 5] > PAGESIZE ex_impl - DPFIXED ex_impl"
    by (simp add: ex_impl_def)
  show ?thesis
    using l insertRecord_too_long [OF l] by blast
qed

text \<open>
  Claim C7, at the pair that it fails on. The field holds \<open>-2147483648\<close> and the literal
  is 1: the field is less than the literal, but \<^verbatim>\<open>iattr - ifltr\<close> overflows to
  \<open>2147483647\<close> and \<^verbatim>\<open>matchRec\<close> answers \<open>false\<close> to \<open><\<close>.
\<close>

theorem matchRec_integer_overflow:
  "sint (int_of_bytes [0, 0, 0, 128]) = - 2147483648
   \<and> sint (int_of_bytes [1, 0, 0, 0]) = 1
   \<and> typeS ex_filtered = INTEGER \<and> opS ex_filtered = LT
   \<and> offset ex_filtered = 0 \<and> lengthS ex_filtered = 4
   \<and> filterS ex_filtered = Some [1, 0, 0, 0]
   \<and> matchRec (\<lambda>a b. Zero) ex_filtered [0, 0, 0, 128] = False"
  by (simp add: matchRec_def c_int_def ex_filtered_def ex_scan_def int_of_bytes_def sign_of_int_def
        apply_op_def)

text \<open>
  What \<^verbatim>\<open>matchRec\<close> computes for an integer predicate whose field lies within the record,
  and that the subtraction is the difference of the two values when that difference is
  an \<^verbatim>\<open>int\<close>.
\<close>

lemma matchRec_integer:
  assumes "filterS h = Some flt" "typeS h = INTEGER"
    and "c_int (c_int (offset h + lengthS h) - 1) < int (length rec)"
  shows "matchRec fsub h rec =
     apply_op (opS h) (sign_of_int (sint (int_of_bytes (take (nat (lengthS h)) (drop (nat (offset h)) rec))
                 - int_of_bytes (take (nat (lengthS h)) flt))))"
  using assms by (simp add: matchRec_def Let_def)

lemma sint_diff_no_overflow:
  fixes a b :: "32 word"
  assumes "- (2 ^ 31) \<le> sint a - sint b" "sint a - sint b < 2 ^ 31"
  shows "sint (a - b) = sint a - sint b"
proof -
  have "sint (a - b) = signed_take_bit 31 (sint a - sint b)"
    by (simp add: sint_word_ariths)
  also have "\<dots> = sint a - sint b"
    using assms by (simp add: signed_take_bit_int_eq_self)
  finally show ?thesis .
qed

lemma matchRec_integer_in_range:
  assumes "filterS h = Some flt" "typeS h = INTEGER"
    and "c_int (c_int (offset h + lengthS h) - 1) < int (length rec)"
    and "a = int_of_bytes (take (nat (lengthS h)) (drop (nat (offset h)) rec))"
    and "b = int_of_bytes (take (nat (lengthS h)) flt)"
    and "- (2 ^ 31) \<le> sint a - sint b" "sint a - sint b < 2 ^ 31"
  shows "matchRec fsub h rec = apply_op (opS h) (sign_of_int (sint a - sint b))"
  using matchRec_integer [OF assms(1-3)] sint_diff_no_overflow [OF assms(6,7)] assms(4,5)
  by simp

subsection \<open>The retry loop of insertRecord\<close>

lemma data_hdr_distinct:
  "data_at e f (Some p) = Some pg \<Longrightarrow> hdr_at e f (Some hp) = Some fh \<Longrightarrow> p \<noteq> hp"
  by (auto simp: data_at_def hdr_at_def split: option.splits frame.splits)








lemma data_at_store: "store e' = store e \<Longrightarrow> data_at e' = data_at e"
  by (intro ext) (simp add: data_at_def split: option.split)

lemma allocated_files: "files e' = files e \<Longrightarrow> allocated e' = allocated e"
  by (rule ext) (simp add: allocated_def)





lemma io_call_ok: "\<not> fails 0 e \<Longrightarrow> io_call e = (False, e\<lparr>faults := tl (faults e)\<rparr>)"
  by (cases "faults e") (simp_all add: io_call_def fails_def)

lemma fails_Suc: "fails (Suc k) e = fails k (e\<lparr>faults := tl (faults e)\<rparr>)"
  by (cases "faults e") (simp_all add: fails_def)



lemma bm_readPage_nofail:
  "\<not> fails 0 e \<Longrightarrow> store e (f, p) \<noteq> None \<Longrightarrow>
     bm_readPage e f p = (OK, e\<lparr>faults := tl (faults e), pinned := (f, p) # pinned e\<rparr>)"
  by (simp add: bm_readPage_def io_call_ok)








subsection \<open>deleteRecord and getRecord of the scan\<close>

text \<open>
  Claim C9. \<^verbatim>\<open>deleteRecord\<close> returns the status of the page's \<^verbatim>\<open>deleteRecord\<close>, whatever it
  is, and in every case the header's record count is one less and both dirty flags are
  set: the deletion is not atomic when the page layer fails.
\<close>

theorem deleteRecord_not_atomic:
  assumes "curPage h = Some p" and "data_at e (filePtr h) (Some p) = Some pg"
    and "headerPage h = Some hp" and "hdr_at e (filePtr h) (Some hp) = Some fh"
  shows "\<exists>e' h'. deleteRecord e h = Returns (fst (page_deleteRecord pg (curRec h)), e', h')
           \<and> hdr_at e' (filePtr h) (Some hp) = Some (fh\<lparr>recCnt := recCnt fh - 1\<rparr>)
           \<and> curDirtyFlag h' \<and> hdrDirtyFlag h'"
proof -
  have "p \<noteq> hp" using assms(2,4) by (rule data_hdr_distinct)
  then have "hdr_at (put_data e (filePtr h) p pg') (filePtr h) (Some hp) = Some fh" for pg'
    using assms(4) by (simp add: hdr_at_def put_data_def)
  then show ?thesis
    using assms by (simp add: deleteRecord_def Let_def split: prod.splits) (simp add: hdr_at_def put_hdr_def)
qed

theorem deleteRecord_not_atomic_witness:
  "curPage ex_scan = Some 2
   \<and> data_at ex_env (filePtr ex_scan) (Some 2)
       = Some \<lparr>ownPageNo = 2, nextPage = 3, slots = [Some [1, 0, 0, 0], None, Some [2, 0, 0, 0]]\<rparr>
   \<and> headerPage ex_scan = Some 1
   \<and> hdr_at ex_env (filePtr ex_scan) (Some 1)
       = Some \<lparr>fileName = ''f'', firstPage = 2, lastPage = 3, pageCnt = 2, recCnt = 3\<rparr>
   \<and> (\<exists>e' h'. deleteRecord ex_env ex_scan = Returns (INVALIDSLOTNO, e', h')
         \<and> hdr_at e' (filePtr ex_scan) (Some 1)
            = Some \<lparr>fileName = ''f'', firstPage = 2, lastPage = 3, pageCnt = 2, recCnt = 2\<rparr>
         \<and> curDirtyFlag h' \<and> hdrDirtyFlag h')"
proof -
  have a: "curPage ex_scan = Some 2" by (simp add: ex_scan_def)
  have b: "data_at ex_env (filePtr ex_scan) (Some 2)
       = Some \<lparr>ownPageNo = 2, nextPage = 3, slots = [Some [1, 0, 0, 0], None, Some [2, 0, 0, 0]]\<rparr>"
    by (simp add: data_at_def ex_env_def ex_scan_def ex_store_def)
  have c: "headerPage ex_scan = Some 1" by (simp add: ex_scan_def)
  have d: "hdr_at ex_env (filePtr ex_scan) (Some 1)
       = Some \<lparr>fileName = ''f'', firstPage = 2, lastPage = 3, pageCnt = 2, recCnt = 3\<rparr>"
    by (simp add: hdr_at_def ex_env_def ex_scan_def ex_store_def)
  have s: "fst (page_deleteRecord \<lparr>ownPageNo = 2, nextPage = 3, slots = [Some [1, 0, 0, 0], None, Some [2, 0, 0, 0]]\<rparr> (curRec ex_scan)) = INVALIDSLOTNO"
    by (simp add: page_deleteRecord_def ex_scan_def NULLRID_def)
  show ?thesis
    using a b c d deleteRecord_not_atomic [OF a b c d] by (simp add: s)
qed

text \<open>
  Claim C10, amended. \<^verbatim>\<open>HeapFileScan::getRecord\<close> dereferences \<^verbatim>\<open>curPage\<close> with no check: with
  \<^verbatim>\<open>curPage = NULL\<close> the call is undefined, and it is so after every \<^verbatim>\<open>endScan\<close>. A scan whose
  constructor returned \<open>OK\<close> holds a current page: before the first \<^verbatim>\<open>scanNext\<close> the
  pointer is not \<^verbatim>\<open>NULL\<close>.
\<close>

theorem getRecord_null_page:
  "HeapFileScan_getRecord e (h\<lparr>curPage := None\<rparr>) rec = Undefined
   \<and> (case endScan e h of (status, e1, h1) \<Rightarrow>
         curPage h1 = None \<and> HeapFileScan_getRecord e1 h1 rec = Undefined)
   \<and> (HeapFileScan_ctor e h0 name = Returns (OK, e2, h2) \<longrightarrow>
         curPage h2 = Some (curPageNo h2) \<and> (filePtr h2, curPageNo h2) \<in> set (pinned e2)
         \<and> curRec h2 = NULLRID)"
proof -
  have "curPage h1 = Some (curPageNo h1) \<and> (filePtr h1, curPageNo h1) \<in> set (pinned e1)
          \<and> curRec h1 = NULLRID"
    if "HeapFile_ctor e h0 name = Returns (OK, e1, h1)" for e1 h1
    using that
    by (auto simp: HeapFile_ctor_def Let_def bm_readPage_def file_getFirstPage_def
             split: prod.splits if_splits sum.splits option.splits)
  then have "HeapFileScan_ctor e h0 name = Returns (OK, e2, h2) \<longrightarrow>
         curPage h2 = Some (curPageNo h2) \<and> (filePtr h2, curPageNo h2) \<in> set (pinned e2)
         \<and> curRec h2 = NULLRID"
    by (auto simp: HeapFileScan_ctor_def split: outcome.splits)
  then show ?thesis
    by (simp add: HeapFileScan_getRecord_def endScan_def data_at_def split: prod.splits)
qed

text \<open>
  The claim as stated fails on a scan just constructed: the first data page is pinned,
  and \<^verbatim>\<open>getRecord\<close> before any \<^verbatim>\<open>scanNext\<close> returns the status of the page layer for the
  cursor \<^verbatim>\<open>NULLRID\<close>.
\<close>

theorem getRecord_fresh_scan:
  "HeapFileScan_ctor ex_closed (ex_scan\<lparr>curPage := None\<rparr>) ''f''
     = Returns (OK, ex_env\<lparr>pinned := [(''f'', 2), (''f'', 1)]\<rparr>, ex_scan)
   \<and> HeapFileScan_getRecord (ex_env\<lparr>pinned := [(''f'', 2), (''f'', 1)]\<rparr>) ex_scan []
     = Returns (INVALIDSLOTNO, [])"
  by (simp add: HeapFileScan_ctor_def HeapFile_ctor_def ex_closed_def ex_env_def ex_scan_def
      db_openFile_def io_call_def file_getFirstPage_def bm_readPage_def ex_store_def hdr_at_def
      Let_def HeapFileScan_getRecord_def data_at_def page_getRecord_def NULLRID_def)

theorem getRecord_null_page_witness:
  "HeapFileScan_ctor ex_closed (ex_scan\<lparr>curPage := None\<rparr>) ''f''
     = Returns (OK, ex_env\<lparr>pinned := [(''f'', 2), (''f'', 1)]\<rparr>, ex_scan)
   \<and> curPage ex_scan = Some (curPageNo ex_scan)
   \<and> HeapFileScan_getRecord ex_env (ex_scan\<lparr>curPage := None\<rparr>) [] = Undefined"
proof -
  have c: "HeapFileScan_ctor ex_closed (ex_scan\<lparr>curPage := None\<rparr>) ''f''
     = Returns (OK, ex_env\<lparr>pinned := [(''f'', 2), (''f'', 1)]\<rparr>, ex_scan)"
    by (simp add: HeapFileScan_ctor_def HeapFile_ctor_def ex_closed_def ex_env_def ex_scan_def
      db_openFile_def io_call_def file_getFirstPage_def bm_readPage_def ex_store_def hdr_at_def
      Let_def)
  from getRecord_null_page [where e = ex_closed and ?h0.0 = "ex_scan\<lparr>curPage := None\<rparr>"
          and name = "''f''" and ?e2.0 = "ex_env\<lparr>pinned := [(''f'', 2), (''f'', 1)]\<rparr>"
          and ?h2.0 = ex_scan] c
  have "curPage ex_scan = Some (curPageNo ex_scan)" by blast
  moreover from getRecord_null_page [where e = ex_env and h = ex_scan and rec = "[]"]
  have "HeapFileScan_getRecord ex_env (ex_scan\<lparr>curPage := None\<rparr>) [] = Undefined" by blast
  ultimately show ?thesis using c by blast
qed

subsection \<open>The scan loop, round by round\<close>

lemma scanLoop_body:
  "(if n = - 1 then Some (Returns (FILEEOF, out, e, h)) else
      (case (if curPage h \<noteq> None
             then bm_unPinPage e (filePtr h) (curPageNo h) (curDirtyFlag h)
             else (OK, e)) of (status, e1) \<Rightarrow>
       if status \<noteq> OK then Some (Returns (status, out, e1, h)) else
       (case bm_readPage e1 (filePtr h) n of (status, e2) \<Rightarrow>
        if status \<noteq> OK then Some (Returns (status, out, e2, h)) else
        let h1 = h\<lparr>curPage := Some n, curPageNo := n, curDirtyFlag := False\<rparr> in
        (case data_at e2 (filePtr h1) (curPage h1) of
           None \<Rightarrow> Some Undefined
         | Some pg \<Rightarrow>
            (case scanCurPage (matchRec fs h1) pg (curRec h1) of
               Hit rid \<Rightarrow> Some (Returns (OK, rid, e2, h1\<lparr>curRec := rid\<rparr>))
             | Fail status cur \<Rightarrow> Some (Returns (status, out, e2, h1\<lparr>curRec := cur\<rparr>))
             | Exhausted \<Rightarrow> loop fs e2 (h1\<lparr>curRec := NULLRID\<rparr>) out (nextPage pg)))))) =
     (case scanStep fs e h out n of
        Done r \<Rightarrow> Some r
      | Again (e', h', n') \<Rightarrow> loop fs e' h' out n')"
  by (simp add: scanStep_def Let_def split: prod.split option.split page_scan.split)

lemma scanLoop_unfold:
  "scanLoop fsub e h outRid nextPageNo =
     (case scanStep fsub e h outRid nextPageNo of
        Done r \<Rightarrow> Some r
      | Again (e', h', n') \<Rightarrow> scanLoop fsub e' h' outRid n')"
  by (subst scanLoop.simps) (simp only: scanLoop_body)

lemma scanLoop_induct [consumes 1, case_names Done Again]:
  assumes run: "scanLoop fsub e h outRid n = Some y"
    and fin: "\<And>e h n. scanStep fsub e h outRid n = Done y \<Longrightarrow> P e h n"
    and again: "\<And>e h n e' h' n'. scanStep fsub e h outRid n = Again (e', h', n')
                  \<Longrightarrow> P e' h' n' \<Longrightarrow> P e h n"
  shows "P e h n"
proof -
  let ?Q = "\<lambda>fs e h out n z. fs = fsub \<longrightarrow> out = outRid \<longrightarrow> z = y \<longrightarrow> P e h n"
  have "?Q fsub e h outRid n y"
  proof (rule scanLoop.raw_induct [where P = ?Q, OF _ run], unfold scanLoop_body, intro impI)
    fix loop fs e h out n z
    assume IH: "\<And>e h out n b z. loop e h out n b = Some z \<Longrightarrow> ?Q e h out n b z"
      and body: "(case scanStep fs e h out n of
                    Done r \<Rightarrow> Some r
                  | Again (e', h', n') \<Rightarrow> loop fs e' h' out n') = Some z"
      and eq: "fs = fsub" "out = outRid" "z = y"
    show "P e h n"
    proof (cases "scanStep fsub e h outRid n")
      case (Done r)
      then show ?thesis using body fin eq by simp
    next
      case (Again c)
      obtain e' h' n' where c: "c = (e', h', n')" by (cases c)
      with Again body eq have "loop fsub e' h' outRid n' = Some y" by simp
      from IH [OF this] have "P e' h' n'" by simp
      with Again c show ?thesis using again by blast
    qed
  qed
  then show ?thesis by blast
qed


subsection \<open>markScan and resetScan\<close>

lemma matchRec_frame [simp]:
  "matchRec fsub (h\<lparr>markedPageNo := a\<rparr>) = matchRec fsub h"
  "matchRec fsub (h\<lparr>markedRec := b\<rparr>) = matchRec fsub h"
  "matchRec fsub (h\<lparr>curPage := cp\<rparr>) = matchRec fsub h"
  "matchRec fsub (h\<lparr>curPageNo := cn\<rparr>) = matchRec fsub h"
  "matchRec fsub (h\<lparr>curDirtyFlag := cd\<rparr>) = matchRec fsub h"
  "matchRec fsub (h\<lparr>curRec := cr\<rparr>) = matchRec fsub h"
  by (intro ext, simp add: matchRec_def split: option.split)+

lemma scanStep_marks:
  "scanStep fsub e (h\<lparr>markedPageNo := a, markedRec := b\<rparr>) out n =
     (case scanStep fsub e h out n of
        Done r \<Rightarrow> Done (map_outcome (\<lambda>(st, rid, e', h').
                          (st, rid, e', h'\<lparr>markedPageNo := a, markedRec := b\<rparr>)) r)
      | Again (e', h', n') \<Rightarrow> Again (e', h'\<lparr>markedPageNo := a, markedRec := b\<rparr>, n'))"
  by (simp add: scanStep_def Let_def split: prod.split option.split page_scan.split)

lemma scanLoop_marks_Some:
  assumes "scanLoop fsub e h out n = Some y"
  shows "scanLoop fsub e (h\<lparr>markedPageNo := a, markedRec := b\<rparr>) out n
           = Some (map_outcome (\<lambda>(st, rid, e', h').
                          (st, rid, e', h'\<lparr>markedPageNo := a, markedRec := b\<rparr>)) y)"
  using assms
proof (induction rule: scanLoop_induct)
  case (Done e h n)
  then show ?case by (subst scanLoop_unfold) (simp add: scanStep_marks)
next
  case (Again e h n e' h' n')
  then show ?case by (subst scanLoop_unfold) (simp add: scanStep_marks)
qed

lemma scanLoop_marks:
  "scanLoop fsub e (h\<lparr>markedPageNo := a, markedRec := b\<rparr>) out n
     = map_option (map_outcome (\<lambda>(st, rid, e', h').
                          (st, rid, e', h'\<lparr>markedPageNo := a, markedRec := b\<rparr>)))
         (scanLoop fsub e h out n)"
proof (cases "scanLoop fsub e h out n")
  case (Some y)
  then show ?thesis by (simp add: scanLoop_marks_Some)
next
  case None
  show ?thesis
  proof (cases "scanLoop fsub e (h\<lparr>markedPageNo := a, markedRec := b\<rparr>) out n")
    case N: None
    with None show ?thesis by simp
  next
    case (Some y)
    from scanLoop_marks_Some [OF this, where a = "markedPageNo h" and b = "markedRec h"] None
    show ?thesis by simp
  qed
qed

text \<open>
  Claim C8. \<^verbatim>\<open>markScan\<close> followed at once by \<^verbatim>\<open>resetScan\<close> returns \<open>OK\<close> twice, leaves the
  environment as it was (no I/O: the marked page is the current page) and changes the
  scan object in its mark only, restoring the cursor to itself. The next \<^verbatim>\<open>scanNext\<close> then
  returns the same status and record and leaves the same environment and the same scan
  object as it would have without the round trip, the saved mark apart; it returns if
  and only if it would have.
\<close>

theorem markScan_resetScan_round_trip:
  "(case markScan h of (status1, h1) \<Rightarrow>
    case resetScan e h1 of (status2, e2, h2) \<Rightarrow>
      status1 = OK \<and> status2 = OK \<and> e2 = e
      \<and> h2 = h\<lparr>markedPageNo := curPageNo h, markedRec := curRec h\<rparr>
      \<and> curRec h2 = curRec h
      \<and> scanNext fsub e2 h2 out
          = map_option (map_outcome (\<lambda>(st, rid, e', h').
               (st, rid, e', h'\<lparr>markedPageNo := curPageNo h, markedRec := curRec h\<rparr>)))
             (scanNext fsub e h out))"
  by (simp add: markScan_def resetScan_def scanNext_def scanLoop_marks)

lemma ex_scanNext:
  "scanNext fsub ex_env ex_scan NULLRID
     = Some (Returns (OK, \<lparr>pageNo = 2, slotNo = 0\<rparr>,
               ex_env\<lparr>pinned := [(''f'', 2), (''f'', 1)]\<rparr>,
               ex_scan\<lparr>curRec := \<lparr>pageNo = 2, slotNo = 0\<rparr>\<rparr>))"
  apply (simp add: scanNext_def)
  apply (subst scanLoop_unfold)
  apply (simp add: ex_scan_def)
  apply (simp add: scanStep_def ex_env_def ex_store_def bm_unPinPage_def bm_readPage_def io_call_def
        data_at_def Let_def scanCurPage_def NULLRID_def page_firstRecord_def matchRec_def page_getRecord_def)
  done

theorem markScan_resetScan_round_trip_witness:
  "(case markScan ex_scan of (status1, h1) \<Rightarrow>
    case resetScan ex_env h1 of (status2, e2, h2) \<Rightarrow>
      scanNext (\<lambda>a b. Zero) e2 h2 NULLRID
        = Some (Returns (OK, \<lparr>pageNo = 2, slotNo = 0\<rparr>,
                  ex_env\<lparr>pinned := [(''f'', 2), (''f'', 1)]\<rparr>,
                  ex_scan\<lparr>curRec := \<lparr>pageNo = 2, slotNo = 0\<rparr>,
                           markedPageNo := 2, markedRec := NULLRID\<rparr>)))"
  using markScan_resetScan_round_trip [where h = ex_scan and e = ex_env
          and fsub = "\<lambda>a b. Zero" and out = NULLRID]
  by (simp add: ex_scanNext split: prod.splits) (simp add: ex_scan_def)

subsection \<open>Pins\<close>







lemma put_pinned [simp]:
  "pinned (put_data e f p pg) = pinned e" "pinned (put_hdr e f p fh) = pinned e"
  "faults (put_data e f p pg) = faults e" "faults (put_hdr e f p fh) = faults e"
  by (simp_all add: put_data_def put_hdr_def)






lemma bm_unPinPage_nofault:
  "faults e = [] \<Longrightarrow> (f, p) \<in> set (pinned e) \<Longrightarrow>
     bm_unPinPage e f p d = (OK, e\<lparr>pinned := remove1 (f, p) (pinned e)\<rparr>)"
  by (simp add: bm_unPinPage_def io_call_def)




































subsection \<open>The unfiltered scan\<close>

lemma first_live_live_slots:
  "first_live k ss = (case live_slots k ss of [] \<Rightarrow> None | j # _ \<Rightarrow> Some j)"
  by (induction k ss rule: first_live.induct) simp_all

lemma live_slots_member:
  "j \<in> set (live_slots k ss) \<Longrightarrow> k \<le> j \<and> j < k + length ss \<and> ss ! (j - k) \<noteq> None"
proof (induction k ss rule: live_slots.induct)
  case (2 k ss)
  then have "Suc k \<le> j \<and> j < Suc k + length ss \<and> ss ! (j - Suc k) \<noteq> None" by simp
  then show ?case by (auto simp: Suc_diff_le)
next
  case (3 k r ss)
  show ?case
  proof (cases "j = k")
    case True
    then show ?thesis by simp
  next
    case False
    with 3 have "Suc k \<le> j \<and> j < Suc k + length ss \<and> ss ! (j - Suc k) \<noteq> None" by simp
    then show ?thesis by (auto simp: Suc_diff_le)
  qed
qed simp

lemma live_slots_tail:
  "live_slots k ss = j # rs \<Longrightarrow> live_slots (Suc j) (drop (Suc j - k) ss) = rs"
proof (induction k ss rule: live_slots.induct)
  case (2 k ss)
  then have "live_slots (Suc j) (drop (Suc j - Suc k) ss) = rs" by simp
  moreover from 2 have "Suc k \<le> j" using live_slots_member [of j "Suc k" ss] by simp
  ultimately show ?case by (simp add: Suc_diff_le)
next
  case (3 k r ss)
  from "3.prems" have "j = k" "rs = live_slots (Suc k) ss" by auto
  then show ?case by simp
qed simp

lemma page_rids_NULLRID: "rids_after pg NULLRID = page_rids pg"
  by (simp add: rids_after_def page_rids_def NULLRID_def)

lemma rids_after_step:
  assumes "rids_after pg c = r # rs"
  shows "rids_after pg r = rs"
proof -
  let ?k = "nat (slotNo c + 1)"
  from assms obtain j js where
    l: "live_slots ?k (drop ?k (slots pg)) = j # js" and r: "r = \<lparr>pageNo = ownPageNo pg, slotNo = int j\<rparr>"
    and rs: "rs = map (\<lambda>j. \<lparr>pageNo = ownPageNo pg, slotNo = int j\<rparr>) js"
    by (auto simp: rids_after_def Let_def)
  from l have "?k \<le> j" using live_slots_member [of j ?k "drop ?k (slots pg)"] by simp
  with live_slots_tail [OF l] have "live_slots (Suc j) (drop (Suc j) (slots pg)) = js" by simp
  with r rs show ?thesis by (simp add: rids_after_def Let_def nat_add_distrib)
qed

lemma scanCurPage_unfiltered:
  assumes m: "\<And>rec. m rec"
  shows "scanCurPage m pg c = (case rids_after pg c of [] \<Rightarrow> Exhausted | r # _ \<Rightarrow> Hit r)"
proof -
  let ?k = "nat (slotNo c + 1)"
  have hit: "scanPage m pg c \<lparr>pageNo = ownPageNo pg, slotNo = int j\<rparr>
               = Hit \<lparr>pageNo = ownPageNo pg, slotNo = int j\<rparr>"
    if "j \<in> set (live_slots k (drop k (slots pg)))" for j k
  proof -
    from live_slots_member [OF that] have "j < length (slots pg)" "slots pg ! j \<noteq> None"
      by auto
    then show ?thesis using m by (subst scanPage.simps) (auto simp: page_getRecord_def)
  qed
  show ?thesis
  proof (cases "pageNo c = pageNo NULLRID \<and> slotNo c = slotNo NULLRID")
    case True
    then have k: "?k = 0" by (simp add: NULLRID_def)
    show ?thesis
    proof (cases "live_slots 0 (slots pg)")
      case Nil
      with True k show ?thesis
        by (simp add: scanCurPage_def page_firstRecord_def first_live_live_slots rids_after_def)
    next
      case (Cons j js)
      then have "j \<in> set (live_slots 0 (drop 0 (slots pg)))" by simp
      from hit [OF this] True k Cons show ?thesis
        by (simp add: scanCurPage_def page_firstRecord_def first_live_live_slots rids_after_def)
    qed
  next
    case False
    have sc: "scanCurPage m pg c =
        (case page_nextRecord pg c of
           Inl status \<Rightarrow> if status \<noteq> ENDOFPAGE then Fail status c else Exhausted
         | Inr nextRid \<Rightarrow> scanPage m pg c nextRid)"
      unfolding scanCurPage_def by (rule if_not_P [OF False])
    show ?thesis
    proof (cases "live_slots ?k (drop ?k (slots pg))")
      case Nil
      then show ?thesis
        by (simp add: sc page_nextRecord_def first_live_live_slots rids_after_def Let_def)
    next
      case (Cons j js)
      then have "j \<in> set (live_slots ?k (drop ?k (slots pg)))" by simp
      from hit [OF this] Cons show ?thesis
        by (simp add: sc page_nextRecord_def first_live_live_slots rids_after_def Let_def)
    qed
  qed
qed


lemma matchRec_unfiltered: "filterS h = None \<Longrightarrow> matchRec fsub h rec"
  by (simp add: matchRec_def)

lemma chain_store: "store e' = store e \<Longrightarrow> chain e' f n pgs = chain e f n pgs"
  by (induction pgs arbitrary: n) (simp_all add: data_at_def)

lemma todo_NULLRID: "todo pgs NULLRID = file_rids pgs"
  by (cases pgs) (simp_all add: file_rids_def page_rids_NULLRID)

lemma scanStep_at_page:
  assumes nf: "faults e = []" and flt: "filterS h = None" and cur: "curPage h \<noteq> None"
    and pin: "(filePtr h, curPageNo h) \<in> set (pinned e)"
    and n: "n \<noteq> - 1" and pg: "data_at e (filePtr h) (Some n) = Some pg"
  shows "scanStep fsub e h out n =
     (case rids_after pg (curRec h) of
        [] \<Rightarrow> Again (e\<lparr>pinned := (filePtr h, n) # remove1 (filePtr h, curPageNo h) (pinned e)\<rparr>,
                     h\<lparr>curPage := Some n, curPageNo := n, curDirtyFlag := False, curRec := NULLRID\<rparr>,
                     nextPage pg)
      | r # rs \<Rightarrow> Done (Returns (OK, r,
                     e\<lparr>pinned := (filePtr h, n) # remove1 (filePtr h, curPageNo h) (pinned e)\<rparr>,
                     h\<lparr>curPage := Some n, curPageNo := n, curDirtyFlag := False, curRec := r\<rparr>)))"
proof -
  let ?e1 = "e\<lparr>pinned := remove1 (filePtr h, curPageNo h) (pinned e)\<rparr>"
  let ?e2 = "e\<lparr>pinned := (filePtr h, n) # remove1 (filePtr h, curPageNo h) (pinned e)\<rparr>"
  let ?h1 = "h\<lparr>curPage := Some n, curPageNo := n, curDirtyFlag := False\<rparr>"
  have u: "bm_unPinPage e (filePtr h) (curPageNo h) (curDirtyFlag h) = (OK, ?e1)"
    using nf pin by (rule bm_unPinPage_nofault)
  have "store e (filePtr h, n) \<noteq> None"
    using pg by (auto simp: data_at_def split: option.splits)
  then have r: "bm_readPage ?e1 (filePtr h) n = (OK, ?e2)"
    using nf by (simp add: bm_readPage_def io_call_def)
  have d: "data_at ?e2 (filePtr h) (Some n) = Some pg" using pg by (simp add: data_at_def)
  have m: "\<And>rec. matchRec fsub h rec" using flt by (simp add: matchRec_def)
  have sc: "scanCurPage (matchRec fsub h) pg (curRec h)
              = (case rids_after pg (curRec h) of [] \<Rightarrow> Exhausted | r # _ \<Rightarrow> Hit r)"
    using m by (rule scanCurPage_unfiltered)
  have "scanStep fsub e h out n =
     (case scanCurPage (matchRec fsub h) pg (curRec h) of
        Hit rid \<Rightarrow> Done (Returns (OK, rid, ?e2, ?h1\<lparr>curRec := rid\<rparr>))
      | Fail status c \<Rightarrow> Done (Returns (status, out, ?e2, ?h1\<lparr>curRec := c\<rparr>))
      | Exhausted \<Rightarrow> Again (?e2, ?h1\<lparr>curRec := NULLRID\<rparr>, nextPage pg))"
    using n cur by (simp add: scanStep_def Let_def u r d)
  then show ?thesis
    by (simp add: sc split: list.split)
qed

lemma scanLoop_chain:
  assumes "faults e = []" and "filterS h = None" and "curPage h \<noteq> None"
    and "(filePtr h, curPageNo h) \<in> set (pinned e)"
    and "chain e (filePtr h) n pgs"
  shows "case todo pgs (curRec h) of
           [] \<Rightarrow> (\<exists>e' h'. scanLoop fsub e h out n = Some (Returns (FILEEOF, out, e', h')))
         | r # rs \<Rightarrow> (\<exists>e' h' pgs'. scanLoop fsub e h out n = Some (Returns (OK, r, e', h'))
                        \<and> positioned e' h' pgs' \<and> curRec h' = r \<and> todo pgs' r = rs)"
  using assms
proof (induction pgs arbitrary: e h n)
  case Nil
  then have "n = - 1" by simp
  then show ?case by (subst scanLoop_unfold) (simp add: scanStep_def)
next
  case (Cons pg rest)
  let ?f = "filePtr h"
  from Cons.prems(5) have n: "n \<noteq> - 1" and pg: "data_at e ?f (Some n) = Some pg"
    and own: "ownPageNo pg = n" and rest: "chain e ?f (nextPage pg) rest" by simp_all
  let ?e2 = "e\<lparr>pinned := (?f, n) # remove1 (?f, curPageNo h) (pinned e)\<rparr>"
  have st: "store ?e2 = store e" by simp
  note step = scanStep_at_page [OF Cons.prems(1-4) n pg, of fsub out]
  show ?case
  proof (cases "rids_after pg (curRec h)")
    case found: (Cons r rs)
    let ?h2 = "h\<lparr>curPage := Some n, curPageNo := n, curDirtyFlag := False, curRec := r\<rparr>"
    have run: "scanLoop fsub e h out n = Some (Returns (OK, r, ?e2, ?h2))"
      by (subst scanLoop_unfold) (simp add: step found)
    have "chain ?e2 ?f n (pg # rest)"
      using Cons.prems(5) by (simp only: chain_store [OF st])
    then have pos: "positioned ?e2 ?h2 (pg # rest)"
      using Cons.prems(1,2) by (simp add: positioned_def)
    have td: "todo (pg # rest) r = rs @ file_rids rest"
      using rids_after_step [OF found] by simp
    have "\<exists>e' h' pgs'. scanLoop fsub e h out n = Some (Returns (OK, r, e', h'))
            \<and> positioned e' h' pgs' \<and> curRec h' = r \<and> todo pgs' r = rs @ file_rids rest"
      using run pos td by (intro exI [of _ ?e2] exI [of _ ?h2] exI [of _ "pg # rest"]) simp
    then show ?thesis by (simp add: found)
  next
    case none: Nil
    let ?h2 = "h\<lparr>curPage := Some n, curPageNo := n, curDirtyFlag := False, curRec := NULLRID\<rparr>"
    have loop: "scanLoop fsub e h out n = scanLoop fsub ?e2 ?h2 out (nextPage pg)"
      by (subst scanLoop_unfold) (simp add: step none)
    have ih: "case todo rest (curRec ?h2) of
           [] \<Rightarrow> (\<exists>e' h'. scanLoop fsub ?e2 ?h2 out (nextPage pg) = Some (Returns (FILEEOF, out, e', h')))
         | r # rs \<Rightarrow> (\<exists>e' h' pgs'. scanLoop fsub ?e2 ?h2 out (nextPage pg) = Some (Returns (OK, r, e', h'))
                        \<and> positioned e' h' pgs' \<and> curRec h' = r \<and> todo pgs' r = rs)"
    proof (rule Cons.IH)
      show "faults ?e2 = []" using Cons.prems(1) by simp
      show "filterS ?h2 = None" using Cons.prems(2) by simp
      show "curPage ?h2 \<noteq> None" by simp
      show "(filePtr ?h2, curPageNo ?h2) \<in> set (pinned ?e2)" by simp
      have "chain ?e2 ?f (nextPage pg) rest" using rest by (simp only: chain_store [OF st])
      then show "chain ?e2 (filePtr ?h2) (nextPage pg) rest" by simp
    qed
    have "todo (pg # rest) (curRec h) = todo rest (curRec ?h2)"
      by (simp add: none todo_NULLRID)
    with ih show ?thesis unfolding loop by simp
  qed
qed

lemma scanCalls_todo:
  assumes "positioned e h pgs" and "todo pgs (curRec h) = rs"
  shows "\<exists>e' h'. scanCalls (Suc (length rs)) fsub e h out
           = Some (Returns (map (Pair OK) rs @ [(FILEEOF, last (out # rs))], e', h'))"
  using assms
proof (induction rs arbitrary: e h pgs out)
  case Nil
  from Nil.prems(1) have p: "faults e = []" "filterS h = None" "curPage h \<noteq> None"
    "(filePtr h, curPageNo h) \<in> set (pinned e)" "chain e (filePtr h) (curPageNo h) pgs"
    by (simp_all add: positioned_def)
  from scanLoop_chain [OF p, of fsub out] Nil.prems(2)
  obtain e' h' where "scanNext fsub e h out = Some (Returns (FILEEOF, out, e', h'))"
    by (auto simp: scanNext_def)
  then show ?case by simp
next
  case (Cons r rs)
  from Cons.prems(1) have p: "faults e = []" "filterS h = None" "curPage h \<noteq> None"
    "(filePtr h, curPageNo h) \<in> set (pinned e)" "chain e (filePtr h) (curPageNo h) pgs"
    by (simp_all add: positioned_def)
  from scanLoop_chain [OF p, of fsub out] Cons.prems(2)
  obtain e' h' pgs' where nx: "scanNext fsub e h out = Some (Returns (OK, r, e', h'))"
    and pos: "positioned e' h' pgs'" and td: "todo pgs' (curRec h') = rs"
    by (auto simp: scanNext_def)
  from Cons.IH [OF pos td, of r] obtain e'' h'' where
    "scanCalls (Suc (length rs)) fsub e' h' r
       = Some (Returns (map (Pair OK) rs @ [(FILEEOF, last (r # rs))], e'', h''))" by blast
  with nx show ?case by simp
qed


lemma chain_functional: "chain e f n xs \<Longrightarrow> chain e f n ys \<Longrightarrow> xs = ys"
proof (induction xs arbitrary: n ys)
  case Nil
  then show ?case by (cases ys) simp_all
next
  case (Cons x xs)
  then show ?case by (cases ys) auto
qed

lemma chain_from_member:
  "chain e f n pgs \<Longrightarrow> pg \<in> set pgs \<Longrightarrow>
     \<exists>as bs. pgs = as @ pg # bs \<and> chain e f (ownPageNo pg) (pg # bs)"
proof (induction pgs arbitrary: n)
  case Nil
  then show ?case by simp
next
  case (Cons x xs)
  show ?case
  proof (cases "pg = x")
    case True
    with Cons.prems(1) have "x # xs = [] @ pg # xs \<and> chain e f (ownPageNo pg) (pg # xs)" by auto
    then show ?thesis by blast
  next
    case False
    with Cons.prems have "chain e f (nextPage x) xs" "pg \<in> set xs" by simp_all
    from Cons.IH [OF this] obtain as bs where
      "xs = as @ pg # bs" "chain e f (ownPageNo pg) (pg # bs)" by blast
    then have "x # xs = (x # as) @ pg # bs \<and> chain e f (ownPageNo pg) (pg # bs)" by simp
    then show ?thesis by blast
  qed
qed

lemma chain_distinct: "chain e f n pgs \<Longrightarrow> distinct (map ownPageNo pgs)"
proof (induction pgs arbitrary: n)
  case Nil
  then show ?case by simp
next
  case (Cons x xs)
  from Cons.prems have x: "ownPageNo x = n" and tl: "chain e f (nextPage x) xs" by simp_all
  have "ownPageNo x \<notin> ownPageNo ` set xs"
  proof
    assume "ownPageNo x \<in> ownPageNo ` set xs"
    then obtain pg where pg: "pg \<in> set xs" "ownPageNo pg = n" using x by auto
    from chain_from_member [OF tl pg(1)] pg(2) obtain as bs where
      xs: "xs = as @ pg # bs" and c: "chain e f n (pg # bs)" by auto
    from chain_functional [OF Cons.prems c] have "x # xs = pg # bs" .
    with xs show False by simp
  qed
  with Cons.IH [OF tl] show ?case by simp
qed

lemma live_slots_distinct: "distinct (live_slots k ss)"
proof (induction k ss rule: live_slots.induct)
  case (3 k r ss)
  have "k \<notin> set (live_slots (Suc k) ss)"
    using live_slots_member [of k "Suc k" ss] by auto
  with 3 show ?case by simp
qed simp_all

lemma page_rids_distinct: "distinct (page_rids pg)"
  by (simp add: page_rids_def distinct_map live_slots_distinct inj_on_def)

lemma page_rids_pageNo: "r \<in> set (page_rids pg) \<Longrightarrow> pageNo r = ownPageNo pg"
  by (auto simp: page_rids_def)

lemma file_rids_distinct:
  "distinct (map ownPageNo pgs) \<Longrightarrow> distinct (file_rids pgs)"
proof (induction pgs)
  case Nil
  then show ?case by (simp add: file_rids_def)
next
  case (Cons pg pgs)
  have "set (page_rids pg) \<inter> set (file_rids pgs) = {}"
  proof (rule ccontr)
    assume "set (page_rids pg) \<inter> set (file_rids pgs) \<noteq> {}"
    then obtain r pg' where "r \<in> set (page_rids pg)" "pg' \<in> set pgs" "r \<in> set (page_rids pg')"
      by (auto simp: file_rids_def)
    then have "ownPageNo pg = ownPageNo pg'" "pg' \<in> set pgs"
      using page_rids_pageNo by metis+
    with Cons.prems show False by auto
  qed
  with Cons show ?case by (simp add: file_rids_def page_rids_distinct)
qed

text \<open>
  Claim C1. Take a file whose data pages from the current page of the scan on are \<open>pgs\<close>,
  an unfiltered scan on the first of them with the cursor \<^verbatim>\<open>NULLRID\<close>, and a run without
  I/O failures, and let \<open>M\<close> be the number of live records of \<open>pgs\<close>. Then \<open>M + 1\<close> calls of
  \<^verbatim>\<open>scanNext\<close> all return: the first \<open>M\<close> return \<open>OK\<close> with the RIDs of the live records in
  the order of the page chain and, within a page, in slot order; the next one returns
  \<open>FILEEOF\<close> and leaves \<^verbatim>\<open>outRid\<close> alone. No RID comes twice.
\<close>

theorem scan_visits_all_records:
  assumes "faults e = []" and "filterS h = None"
    and "curPage h = Some (curPageNo h)" and "(filePtr h, curPageNo h) \<in> set (pinned e)"
    and "chain e (filePtr h) (curPageNo h) pgs" and "curRec h = NULLRID"
  shows "(\<exists>e' h'. scanCalls (Suc (length (file_rids pgs))) fsub e h out
            = Some (Returns (map (Pair OK) (file_rids pgs)
                              @ [(FILEEOF, last (out # file_rids pgs))], e', h')))
         \<and> distinct (file_rids pgs)"
proof
  have "positioned e h pgs" using assms by (simp add: positioned_def)
  moreover have "todo pgs (curRec h) = file_rids pgs" using assms(6) by (simp add: todo_NULLRID)
  ultimately show "\<exists>e' h'. scanCalls (Suc (length (file_rids pgs))) fsub e h out
            = Some (Returns (map (Pair OK) (file_rids pgs)
                              @ [(FILEEOF, last (out # file_rids pgs))], e', h'))"
    by (rule scanCalls_todo)
  show "distinct (file_rids pgs)"
    using assms(5) by (intro file_rids_distinct chain_distinct)
qed

theorem scan_visits_all_records_witness:
  "chain ex_env ''f'' 2 ex_pages
   \<and> file_rids ex_pages = [\<lparr>pageNo = 2, slotNo = 0\<rparr>, \<lparr>pageNo = 2, slotNo = 2\<rparr>, \<lparr>pageNo = 3, slotNo = 1\<rparr>]
   \<and> (\<exists>e' h'. scanCalls 4 (\<lambda>a b. Zero) ex_env ex_scan NULLRID
         = Some (Returns ([(OK, \<lparr>pageNo = 2, slotNo = 0\<rparr>), (OK, \<lparr>pageNo = 2, slotNo = 2\<rparr>),
                           (OK, \<lparr>pageNo = 3, slotNo = 1\<rparr>), (FILEEOF, \<lparr>pageNo = 3, slotNo = 1\<rparr>)],
                          e', h')))"
proof -
  have c: "chain ex_env (filePtr ex_scan) (curPageNo ex_scan) ex_pages"
    by (simp add: ex_env_def ex_scan_def ex_pages_def ex_store_def data_at_def)
  have r: "file_rids ex_pages
      = [\<lparr>pageNo = 2, slotNo = 0\<rparr>, \<lparr>pageNo = 2, slotNo = 2\<rparr>, \<lparr>pageNo = 3, slotNo = 1\<rparr>]"
    by (simp add: file_rids_def ex_pages_def page_rids_def)
  have h: "faults ex_env = []" "filterS ex_scan = None" "curPage ex_scan = Some (curPageNo ex_scan)"
    "(filePtr ex_scan, curPageNo ex_scan) \<in> set (pinned ex_env)" "curRec ex_scan = NULLRID"
    by (simp_all add: ex_env_def ex_scan_def)
  have f: "filePtr ex_scan = ''f''" "curPageNo ex_scan = 2" by (simp_all add: ex_scan_def)
  from scan_visits_all_records [OF h(1-4) c h(5), of "\<lambda>a b. Zero" NULLRID] c
  show ?thesis unfolding r f by (simp add: numeral_eq_Suc)
qed


end
